theory Spec2Isabelle
  imports Complex_Main "HOL-Library.Sublist" "HOL-Library.Stream" "HOL-Library.Multiset"
begin

section \<open>Data model\<close>

text \<open>
  The source is \<^verbatim>\<open>main.py\<close>. A Python \<^verbatim>\<open>str\<close> is modelled as a \<open>string\<close> with one
  \<open>char\<close> per character, so that \<open>length\<close> is Python's \<^verbatim>\<open>len\<close> and \<open>@\<close> is \<^verbatim>\<open>+\<close>.
  A \<^verbatim>\<open>datetime\<close> is a point on a discrete time line, an \<open>int\<close>.
\<close>

type_synonym datetime = int

text \<open>Class \<^verbatim>\<open>ChatMessage\<close> (lines 20-26). The field \<^verbatim>\<open>id\<close> is called \<open>msg_id\<close>.\<close>

record ChatMessage =
  msg_id :: int
  role :: string
  content :: string
  created_at :: datetime
  conversation_id :: "int option"

text \<open>
  The database. \<open>chatmessage\<close> holds the rows of the table of that name, in the order a
  scan of the table meets them. The primary key of a new row is assigned by the database
  engine and its \<^verbatim>\<open>created_at\<close> by \<^verbatim>\<open>datetime.utcnow\<close>; neither is computed by the
  program, so both are read from \<open>stamps\<close>: the pairs (key, clock reading) that the
  engine and the clock hand to the successive inserts.
\<close>

record store =
  chatmessage :: "ChatMessage list"
  stamps :: "(int \<times> datetime) stream"

text \<open>
  \<^verbatim>\<open>m = ChatMessage(role=r, content=c, conversation_id=cid); session.add(m);
  session.commit(); session.refresh(m)\<close> (lines 147-148, 160-161, 184-185).
\<close>

definition add_commit_refresh ::
  "store \<Rightarrow> string \<Rightarrow> string \<Rightarrow> int option \<Rightarrow> ChatMessage \<times> store" where
  "add_commit_refresh s r c cid =
     (let m = \<lparr>msg_id = fst (shd (stamps s)), role = r, content = c,
               created_at = snd (shd (stamps s)), conversation_id = cid\<rparr>
      in (m, s\<lparr>chatmessage := chatmessage s @ [m], stamps := stl (stamps s)\<rparr>))"

text \<open>\<^verbatim>\<open>session.get(ChatMessage, message_id)\<close>: the row with that primary key.\<close>

definition session_get :: "store \<Rightarrow> int \<Rightarrow> ChatMessage option" where
  "session_get s i = find (\<lambda>m. msg_id m = i) (chatmessage s)"

text \<open>\<^verbatim>\<open>session.delete(msg)\<close>: the row is deleted by its primary key.\<close>

definition session_delete :: "store \<Rightarrow> ChatMessage \<Rightarrow> store" where
  "session_delete s msg =
     s\<lparr>chatmessage := filter (\<lambda>m. msg_id m \<noteq> msg_id msg) (chatmessage s)\<rparr>"

text \<open>
  \<^verbatim>\<open>get_conversation_messages\<close> (lines 58-60): the messages of a conversation ordered by
  \<^verbatim>\<open>created_at\<close>. The sort is stable: rows with equal keys stay in scan order.
\<close>

definition get_conversation_messages :: "store \<Rightarrow> int option \<Rightarrow> ChatMessage list" where
  "get_conversation_messages s cid =
     sort_key created_at (filter (\<lambda>m. conversation_id m = cid) (chatmessage s))"

section \<open>Context assembly (lines 99-124)\<close>

definition CONTEXT_CHAR_LIMIT :: nat where
  "CONTEXT_CHAR_LIMIT = 4096 * 2"

text \<open>
  The query of lines 108-112: the history of the conversation ordered by
  \<^verbatim>\<open>created_at\<close> descending (a stable sort on the reversed order of the key).
\<close>

definition history :: "store \<Rightarrow> int option \<Rightarrow> ChatMessage list" where
  "history s cid =
     sort_key (\<lambda>m. - created_at m) (filter (\<lambda>m. conversation_id m = cid) (chatmessage s))"

type_synonym ollama_message = "string \<times> string"

definition to_ollama :: "ChatMessage \<Rightarrow> ollama_message" where
  "to_ollama msg = (role msg, content msg)"

text \<open>
  The loop of lines 115-121 over the remaining history. It returns
  \<^verbatim>\<open>messages_for_ollama\<close> and \<^verbatim>\<open>current_chars\<close>; the \<^verbatim>\<open>break\<close> returns at once.
\<close>

fun build_context ::
  "ChatMessage list \<Rightarrow> ollama_message list \<Rightarrow> nat \<Rightarrow> ollama_message list \<times> nat" where
  "build_context [] messages_for_ollama current_chars = (messages_for_ollama, current_chars)"
| "build_context (msg # rest) messages_for_ollama current_chars =
     (let msg_chars = length (content msg) in
      if current_chars + msg_chars > CONTEXT_CHAR_LIMIT
      then (messages_for_ollama, current_chars)
      else build_context rest (messages_for_ollama @ [to_ollama msg])
             (current_chars + msg_chars))"

text \<open>Lines 100-124: the walk from an empty list, then \<^verbatim>\<open>reverse()\<close>.\<close>

definition assemble_context :: "store \<Rightarrow> int option \<Rightarrow> ollama_message list" where
  "assemble_context s cid = rev (fst (build_context (history s cid) [] 0))"

section \<open>The upstream response and the outward events\<close>

text \<open>
  What \<^verbatim>\<open>json.loads\<close> returns. A \<^verbatim>\<open>dict\<close> is the association list of its items, read
  with \<open>map_of\<close>. A float is the real it denotes; an infinity or a NaN behaves here as
  any other nonzero float.
\<close>

datatype json =
    JNull
  | JBool bool
  | JInt int
  | JFloat real
  | JStr string
  | JArr "json list"
  | JObj "(string \<times> json) list"

text \<open>Python's truth value of a decoded value (\<^verbatim>\<open>if content_piece:\<close>, \<^verbatim>\<open>if chunk.get("done"):\<close>).\<close>

fun truthy :: "json \<Rightarrow> bool" where
  "truthy JNull = False"
| "truthy (JBool b) = b"
| "truthy (JInt n) = (n \<noteq> 0)"
| "truthy (JFloat x) = (x \<noteq> 0)"
| "truthy (JStr s) = (s \<noteq> [])"
| "truthy (JArr xs) = (xs \<noteq> [])"
| "truthy (JObj kvs) = (kvs \<noteq> [])"

text \<open>\<^verbatim>\<open>d.get(key, default)\<close> on a dict.\<close>

definition dict_get :: "(string \<times> json) list \<Rightarrow> string \<Rightarrow> json \<Rightarrow> json" where
  "dict_get d k dflt = (case map_of d k of Some v \<Rightarrow> v | None \<Rightarrow> dflt)"

text \<open>
  A line of \<^verbatim>\<open>response.aiter_lines()\<close>, by what lines 140-142 do with it: the empty
  string fails \<^verbatim>\<open>if line\<close>, a line on which \<^verbatim>\<open>json.loads\<close> raises
  \<^verbatim>\<open>JSONDecodeError\<close> is passed over, any other line is decoded.
\<close>

datatype upstream_line = Blank | Undecodable | Decoded json

text \<open>
  The response of the upstream: its status, its body as read whole by line 137, and its
  body as lines. \<open>error_content\<close> is what \<^verbatim>\<open>(await response.aread()).decode()\<close>
  gives: the text of the body, or \<open>None\<close> when the bytes are not valid UTF-8 and
  \<^verbatim>\<open>decode\<close> raises \<^verbatim>\<open>UnicodeDecodeError\<close>.
\<close>

record response =
  status_code :: int
  error_content :: "string option"
  aiter_lines :: "upstream_line list"

text \<open>
  The upstream answers the POST of lines 131-135; the request carries the model and the
  messages (\<^verbatim>\<open>stream\<close> is always true).
\<close>

type_synonym upstream = "string \<times> ollama_message list \<Rightarrow> response"

text \<open>The events of the outward stream, one per \<^verbatim>\<open>yield\<close> (lines 137, 144, 149, 166, 191).\<close>

datatype event =
    UserMessage ChatMessage "int option"
  | ContentDelta string
  | DoneEvent ChatMessage
  | ErrorEvent string

text \<open>
  The exceptions that lines 137 and 142-144 can raise; line 150 catches none of them.
\<close>

datatype py_error = AttributeError | TypeError | UnicodeDecodeError

section \<open>The stream relay (lines 96-150)\<close>

text \<open>
  The state of the generator: the accumulator, the events yielded so far, the database,
  and the exception that ended it, if any.
\<close>

record relay =
  full_response_content :: string
  yielded :: "event list"
  db :: store
  raised :: "py_error option"

text \<open>
  Lines 142-144: \<^verbatim>\<open>chunk.get("message", {}).get("content")\<close> raises
  \<^verbatim>\<open>AttributeError\<close> on anything but a dict; a true content piece is appended and
  yielded, and \<^verbatim>\<open>str += x\<close> raises \<^verbatim>\<open>TypeError\<close> when it is not a string.
\<close>

definition take_content :: "json \<Rightarrow> relay \<Rightarrow> py_error + relay" where
  "take_content chunk st =
     (case chunk of
        JObj d \<Rightarrow>
          (case dict_get d ''message'' (JObj []) of
             JObj msg \<Rightarrow>
               (let content_piece = dict_get msg ''content'' JNull in
                if truthy content_piece then
                  (case content_piece of
                     JStr piece \<Rightarrow>
                       Inr (st\<lparr>full_response_content := full_response_content st @ piece,
                               yielded := yielded st @ [ContentDelta piece]\<rparr>)
                   | _ \<Rightarrow> Inl TypeError)
                else Inr st)
           | _ \<Rightarrow> Inl AttributeError)
      | _ \<Rightarrow> Inl AttributeError)"

text \<open>Line 145: \<^verbatim>\<open>chunk.get("done")\<close>, on a chunk that line 142 found to be a dict.\<close>

definition done_flag :: "json \<Rightarrow> bool" where
  "done_flag chunk = (case chunk of JObj d \<Rightarrow> truthy (dict_get d ''done'' JNull) | _ \<Rightarrow> False)"

text \<open>Lines 146-149: the assistant message is stored and the done event yielded.\<close>

definition persist_reply :: "int option \<Rightarrow> relay \<Rightarrow> relay" where
  "persist_reply cid st =
     (let (assistant_message, s') =
            add_commit_refresh (db st) ''assistant'' (full_response_content st) cid
      in st\<lparr>db := s', yielded := yielded st @ [DoneEvent assistant_message]\<rparr>)"

text \<open>Lines 142-149 on one decoded chunk.\<close>

definition relay_chunk :: "int option \<Rightarrow> json \<Rightarrow> relay \<Rightarrow> py_error + relay" where
  "relay_chunk cid chunk st =
     (case take_content chunk st of
        Inl e \<Rightarrow> Inl e
      | Inr st1 \<Rightarrow> Inr (if done_flag chunk then persist_reply cid st1 else st1))"

text \<open>The loop of lines 139-150. An exception ends the generator where it is raised.\<close>

fun relay_lines :: "int option \<Rightarrow> upstream_line list \<Rightarrow> relay \<Rightarrow> relay" where
  "relay_lines cid [] st = st"
| "relay_lines cid (Blank # rest) st = relay_lines cid rest st"
| "relay_lines cid (Undecodable # rest) st = relay_lines cid rest st"
| "relay_lines cid (Decoded chunk # rest) st =
     (case relay_chunk cid chunk st of
        Inl e \<Rightarrow> st\<lparr>raised := Some e\<rparr>
      | Inr st' \<Rightarrow> relay_lines cid rest st')"

text \<open>Class \<^verbatim>\<open>ChatRequest\<close> (lines 87-90).\<close>

record ChatRequest =
  prompt :: string
  chat_conversation_id :: "int option"
  chat_model :: string

text \<open>
  The generator. On a status other than 200, line 137 decodes the body inside the
  expression it yields: when \<^verbatim>\<open>decode\<close> raises, nothing has been yielded and the
  exception ends the generator.
\<close>

definition stream_ollama_response ::
  "upstream \<Rightarrow> ChatRequest \<Rightarrow> int option \<Rightarrow> store \<Rightarrow> relay" where
  "stream_ollama_response ollama request cid s =
     (let messages_for_ollama = assemble_context s cid;
          resp = ollama (chat_model request, messages_for_ollama);
          st = \<lparr>full_response_content = [], yielded = [], db = s, raised = None\<rparr>
      in if status_code resp \<noteq> 200
         then (case error_content resp of
                 None \<Rightarrow> st\<lparr>raised := Some UnicodeDecodeError\<rparr>
               | Some text \<Rightarrow> st\<lparr>yielded := [ErrorEvent (''Ollama API Error: '' @ text)]\<rparr>)
         else relay_lines cid (aiter_lines resp) st)"

section \<open>Regeneration (lines 171-193)\<close>

text \<open>Class \<^verbatim>\<open>RegenerateRequest\<close> (lines 91-94).\<close>

record RegenerateRequest =
  message_id :: int
  new_prompt :: string
  model :: string

datatype HTTPException = HTTPException nat string

text \<open>Lines 179-182: the rows selected by the two \<^verbatim>\<open>where\<close> clauses are deleted one by one.\<close>

definition messages_to_delete :: "store \<Rightarrow> int option \<Rightarrow> datetime \<Rightarrow> ChatMessage list" where
  "messages_to_delete s cid timestamp_of_edit =
     filter (\<lambda>m. conversation_id m = cid \<and> created_at m \<ge> timestamp_of_edit) (chatmessage s)"

definition delete_from :: "store \<Rightarrow> int option \<Rightarrow> datetime \<Rightarrow> store" where
  "delete_from s cid timestamp_of_edit =
     foldl session_delete s (messages_to_delete s cid timestamp_of_edit)"

text \<open>Lines 176-185: the rewind and the insert of the replacement user message.\<close>

definition rewind :: "store \<Rightarrow> ChatMessage \<Rightarrow> string \<Rightarrow> ChatMessage \<times> store" where
  "rewind s original_message new_text =
     add_commit_refresh
       (delete_from s (conversation_id original_message) (created_at original_message))
       ''user'' new_text (conversation_id original_message)"

text \<open>
  The endpoint. It returns the exception raised before the stream starts, or the relay
  state at the end of \<^verbatim>\<open>combined_stream\<close>, and with either the database as it is left.
\<close>

definition regenerate_from_prompt ::
  "upstream \<Rightarrow> RegenerateRequest \<Rightarrow> store \<Rightarrow> (HTTPException + relay) \<times> store" where
  "regenerate_from_prompt ollama request s =
     (case session_get s (message_id request) of
        None \<Rightarrow> (Inl (HTTPException 404 ''Original user message not found''), s)
      | Some original_message \<Rightarrow>
          if role original_message \<noteq> ''user''
          then (Inl (HTTPException 404 ''Original user message not found''), s)
          else
            (let cid = conversation_id original_message;
                 (new_user_message, s') = rewind s original_message (new_prompt request);
                 chat_request_for_stream =
                   \<lparr>prompt = new_prompt request, chat_conversation_id = cid,
                    chat_model = model request\<rparr>;
                 st = stream_ollama_response ollama chat_request_for_stream cid s'
             in (Inr (st\<lparr>yielded := UserMessage new_user_message cid # yielded st\<rparr>),
                 db st)))"

section \<open>Reading the outward stream\<close>

text \<open>The fragments of the content-delta events of a stream, in emission order.\<close>

fun deltas :: "event list \<Rightarrow> string list" where
  "deltas [] = []"
| "deltas (ContentDelta piece # es) = piece # deltas es"
| "deltas (e # es) = deltas es"

text \<open>The messages carried by the done events of a stream, in emission order.\<close>

fun done_messages :: "event list \<Rightarrow> ChatMessage list" where
  "done_messages [] = []"
| "done_messages (DoneEvent m # es) = m # done_messages es"
| "done_messages (e # es) = done_messages es"

text \<open>A line carries the completion flag: it decodes to a dict whose \<^verbatim>\<open>done\<close> is true.\<close>

fun flagged :: "upstream_line \<Rightarrow> bool" where
  "flagged (Decoded chunk) = done_flag chunk"
| "flagged line = False"

text \<open>
  The relay state is coherent: the accumulator is the concatenation of the fragments
  yielded so far, the messages of the done events are the rows added to the table, and
  each of them is an assistant message of the conversation whose content is the
  concatenation of the fragments yielded before its event.
\<close>

definition coherent :: "ChatMessage list \<Rightarrow> int option \<Rightarrow> relay \<Rightarrow> bool" where
  "coherent base cid st \<longleftrightarrow>
     full_response_content st = concat (deltas (yielded st)) \<and>
     chatmessage (db st) = base @ done_messages (yielded st) \<and>
     (\<forall>pre m post. yielded st = pre @ DoneEvent m # post \<longrightarrow>
        content m = concat (deltas pre) \<and> role m = ''assistant'' \<and> conversation_id m = cid) \<and>
     (\<forall>piece. ContentDelta piece \<in> set (yielded st) \<longrightarrow> piece \<noteq> [])"

text \<open>
  From \<open>s\<close> to \<open>s'\<close> rows were only added, each with a key handed out by the engine
  after \<open>s\<close>.
\<close>

definition fresh_rows :: "store \<Rightarrow> store \<Rightarrow> bool" where
  "fresh_rows s s' \<longleftrightarrow>
     sset (stamps s') \<subseteq> sset (stamps s) \<and>
     (\<forall>m\<in>set (chatmessage s'). m \<in> set (chatmessage s) \<or> msg_id m \<in> fst ` sset (stamps s))"

section \<open>Concrete stores\<close>

text \<open>A long old message and a short recent one: only the recent one fits the budget.\<close>

definition long_then_short :: store where
  "long_then_short =
     \<lparr>chatmessage =
        [\<lparr>msg_id = 1, role = ''user'', content = replicate 8191 CHR ''a'', created_at = 1,
          conversation_id = Some 1\<rparr>,
         \<lparr>msg_id = 2, role = ''assistant'', content = ''hi'', created_at = 2,
          conversation_id = Some 1\<rparr>],
      stamps = sconst (3, 3)\<rparr>"

text \<open>The most recent message is longer than the budget.\<close>

definition oversized_latest :: store where
  "oversized_latest =
     \<lparr>chatmessage =
        [\<lparr>msg_id = 1, role = ''assistant'', content = ''hi'', created_at = 1,
          conversation_id = Some 1\<rparr>,
         \<lparr>msg_id = 2, role = ''user'', content = replicate 8193 CHR ''a'', created_at = 2,
          conversation_id = Some 1\<rparr>],
      stamps = sconst (3, 3)\<rparr>"

text \<open>A conversation holding one user prompt; the next rows get the keys and times 2, 3, ...\<close>

definition asked_store :: store where
  "asked_store =
     \<lparr>chatmessage =
        [\<lparr>msg_id = 1, role = ''user'', content = ''hi'', created_at = 1,
          conversation_id = Some 1\<rparr>],
      stamps = siterate (\<lambda>p. (fst p + 1, snd p + 1)) (2, 2)\<rparr>"

definition ask :: ChatRequest where
  "ask = \<lparr>prompt = ''hi'', chat_conversation_id = Some 1, chat_model = ''llama3''\<rparr>"

text \<open>
  Two turns of conversation 1 and a message of conversation 2; the next rows get the keys
  and times 6, 7, ...
\<close>

definition two_turns :: store where
  "two_turns =
     \<lparr>chatmessage =
        [\<lparr>msg_id = 1, role = ''user'', content = ''hi'', created_at = 1,
          conversation_id = Some 1\<rparr>,
         \<lparr>msg_id = 2, role = ''assistant'', content = ''yo'', created_at = 2,
          conversation_id = Some 1\<rparr>,
         \<lparr>msg_id = 3, role = ''user'', content = ''more'', created_at = 3,
          conversation_id = Some 1\<rparr>,
         \<lparr>msg_id = 4, role = ''assistant'', content = ''sure'', created_at = 4,
          conversation_id = Some 1\<rparr>,
         \<lparr>msg_id = 5, role = ''user'', content = ''else'', created_at = 5,
          conversation_id = Some 2\<rparr>],
      stamps = siterate (\<lambda>p. (fst p + 1, snd p + 1)) (6, 6)\<rparr>"

text \<open>
  The third message of \<open>two_turns\<close> (and of \<open>clock_set_back\<close>), and requests on it, on a
  reply and on no message.
\<close>

definition third_message :: ChatMessage where
  "third_message = \<lparr>msg_id = 3, role = ''user'', content = ''more'', created_at = 3,
     conversation_id = Some 1\<rparr>"

definition edit_third :: RegenerateRequest where
  "edit_third = \<lparr>message_id = 3, new_prompt = ''again'', model = ''llama3''\<rparr>"

definition edit_reply :: RegenerateRequest where
  "edit_reply = \<lparr>message_id = 4, new_prompt = ''again'', model = ''llama3''\<rparr>"

definition edit_missing :: RegenerateRequest where
  "edit_missing = \<lparr>message_id = 99, new_prompt = ''again'', model = ''llama3''\<rparr>"


text \<open>
  A database holding one conversation of one turn. The engine gives a new row one more
  than the largest key in the table; a regeneration of the first message empties the
  table, so the rows it inserts get the keys 1 and 2 again, and so on: the keys handed
  out are 1, 2, 1, 2, ... at the times 3, 4, 5, 6, ...
\<close>

definition one_turn :: store where
  "one_turn =
     \<lparr>chatmessage =
        [\<lparr>msg_id = 1, role = ''user'', content = ''hi'', created_at = 1,
          conversation_id = Some 1\<rparr>,
         \<lparr>msg_id = 2, role = ''assistant'', content = ''yo'', created_at = 2,
          conversation_id = Some 1\<rparr>],
      stamps = siterate (\<lambda>p. (3 - fst p, snd p + 1)) (1, 3)\<rparr>"

definition edit_first :: RegenerateRequest where
  "edit_first = \<lparr>message_id = 1, new_prompt = ''hey'', model = ''llama3''\<rparr>"

section \<open>Concrete upstream responses\<close>

text \<open>A line of the upstream's stream: \<^verbatim>\<open>{"message": {"role": "assistant", "content": piece}, "done": d}\<close>.\<close>

definition ollama_chunk :: "string \<Rightarrow> bool \<Rightarrow> json" where
  "ollama_chunk piece d =
     JObj [(''message'', JObj [(''role'', JStr ''assistant''), (''content'', JStr piece)]),
           (''done'', JBool d)]"

text \<open>The usual stream: fragments, a blank line, then the completion flag on the last line.\<close>

definition well_behaved :: upstream where
  "well_behaved payload =
     \<lparr>status_code = 200, error_content = Some [],
      aiter_lines = [Decoded (ollama_chunk ''Hel'' False), Blank,
                     Decoded (ollama_chunk ''lo'' False), Decoded (ollama_chunk [] True)]\<rparr>"

text \<open>A body in which a fragment follows the line with the completion flag.\<close>

definition content_after_done :: upstream where
  "content_after_done payload =
     \<lparr>status_code = 200, error_content = Some [],
      aiter_lines = [Decoded (ollama_chunk ''a'' True), Decoded (ollama_chunk ''b'' False)]\<rparr>"

text \<open>A body with the completion flag on two lines.\<close>

definition done_twice :: upstream where
  "done_twice payload =
     \<lparr>status_code = 200, error_content = Some [],
      aiter_lines = [Decoded (ollama_chunk ''a'' True), Decoded (ollama_chunk ''b'' True)]\<rparr>"

text \<open>An upstream that answers 500 with a body of text.\<close>

definition server_error :: upstream where
  "server_error payload =
     \<lparr>status_code = 500, error_content = Some ''boom'', aiter_lines = []\<rparr>"

text \<open>An upstream that answers 500 with a body that is not valid UTF-8.\<close>

definition garbled_error :: upstream where
  "garbled_error payload = \<lparr>status_code = 500, error_content = None, aiter_lines = []\<rparr>"

section \<open>Properties of the context assembly\<close>

lemma build_context_shape:
  "build_context hist acc n = (acc', n') \<Longrightarrow>
   \<exists>k\<le>length hist. acc' = acc @ map to_ollama (take k hist)
      \<and> n' = n + sum_list (map (\<lambda>m. length (content m)) (take k hist))
      \<and> (n \<le> CONTEXT_CHAR_LIMIT \<longrightarrow> n' \<le> CONTEXT_CHAR_LIMIT)
      \<and> (k < length hist \<longrightarrow> CONTEXT_CHAR_LIMIT < n' + length (content (hist ! k)))"
proof (induction hist arbitrary: acc n)
  case Nil
  then show ?case by simp
next
  case (Cons msg rest)
  show ?case
  proof (cases "n + length (content msg) > CONTEXT_CHAR_LIMIT")
    case True
    with Cons.prems have "acc' = acc" "n' = n" by simp_all
    with True show ?thesis by (intro exI[of _ 0]) simp
  next
    case False
    with Cons.prems have
      "build_context rest (acc @ [to_ollama msg]) (n + length (content msg)) = (acc', n')"
      by simp
    from Cons.IH[OF this] obtain k where k: "k \<le> length rest"
      "acc' = (acc @ [to_ollama msg]) @ map to_ollama (take k rest)"
      "n' = n + length (content msg) + sum_list (map (\<lambda>m. length (content m)) (take k rest))"
      "n + length (content msg) \<le> CONTEXT_CHAR_LIMIT \<longrightarrow> n' \<le> CONTEXT_CHAR_LIMIT"
      "k < length rest \<longrightarrow> CONTEXT_CHAR_LIMIT < n' + length (content (rest ! k))"
      by blast
    with False show ?thesis by (intro exI[of _ "Suc k"]) simp
  qed
qed

lemma filter_key_singleton:
  assumes "distinct (map f xs)" "k \<in> set xs"
  shows "filter (\<lambda>x. f k = f x) xs = [k]"
  using assms
proof (induction xs)
  case Nil then show ?case by simp
next
  case (Cons a xs)
  show ?case
  proof (cases "a = k")
    case True
    with Cons.prems have "\<forall>x\<in>set xs. f k \<noteq> f x" by auto
    then have "filter (\<lambda>x. f k = f x) xs = []" by (simp add: filter_empty_conv)
    with True show ?thesis by simp
  next
    case False
    with Cons.prems have "k \<in> set xs" by auto
    moreover from Cons.prems have "f a \<notin> f ` set xs" by simp
    with \<open>k \<in> set xs\<close> have "f k \<noteq> f a" by (metis imageI)
    ultimately show ?thesis using Cons by simp
  qed
qed

lemma sort_desc_rev:
  fixes f :: "'a \<Rightarrow> int"
  assumes "distinct (map f xs)"
  shows "sort_key (\<lambda>m. - f m) xs = rev (sort_key f xs)"
proof (rule properties_for_sort_key)
  show "mset (rev (sort_key f xs)) = mset xs" by simp
next
  fix k assume "k \<in> set (rev (sort_key f xs))"
  then have k: "k \<in> set xs" by simp
  have d: "distinct (map f (rev (sort_key f xs)))"
    using assms by (simp add: distinct_map inj_on_def rev_map[symmetric] del: rev_map) 
  have "filter (\<lambda>x. f k = f x) (rev (sort_key f xs)) = [k]"
    using filter_key_singleton[OF d] k by simp
  moreover have "filter (\<lambda>x. f k = f x) xs = [k]"
    using filter_key_singleton[OF assms k] .
  ultimately show "filter (\<lambda>x. - f k = - f x) (rev (sort_key f xs)) = filter (\<lambda>x. - f k = - f x) xs"
    by simp
next
  have "sorted (map f (sort_key f xs))" by simp
  then show "sorted (map (\<lambda>m. - f m) (rev (sort_key f xs)))"
    by (simp add: rev_map[symmetric] sorted_wrt_rev sorted_wrt_map del: rev_map) 
qed

lemma assemble_context_rev_prefix:
  "prefix (rev (assemble_context s cid)) (map to_ollama (history s cid))"
proof -
  obtain acc' n' where b: "build_context (history s cid) [] 0 = (acc', n')"
    by (cases "build_context (history s cid) [] 0")
  from build_context_shape[OF b] obtain k where "acc' = map to_ollama (take k (history s cid))"
    by auto
  then have "acc' = take k (map to_ollama (history s cid))" by (simp add: take_map)
  with b show ?thesis by (simp add: assemble_context_def take_is_prefix)
qed
lemma assemble_context_take:
  "rev (assemble_context s cid) =
     map to_ollama (take (length (assemble_context s cid)) (history s cid)) \<and>
   sum_list (map (\<lambda>m. length (snd m)) (assemble_context s cid)) \<le> CONTEXT_CHAR_LIMIT \<and>
   (length (assemble_context s cid) < length (history s cid) \<longrightarrow>
      CONTEXT_CHAR_LIMIT < sum_list (map (\<lambda>m. length (snd m)) (assemble_context s cid))
        + length (content (history s cid ! length (assemble_context s cid))))"
proof -
  obtain acc' n' where b: "build_context (history s cid) [] 0 = (acc', n')"
    by (cases "build_context (history s cid) [] 0")
  from build_context_shape[OF b] obtain k where k: "k \<le> length (history s cid)"
    "acc' = map to_ollama (take k (history s cid))"
    "n' = sum_list (map (\<lambda>m. length (content m)) (take k (history s cid)))"
    "n' \<le> CONTEXT_CHAR_LIMIT"
    "k < length (history s cid) \<longrightarrow> CONTEXT_CHAR_LIMIT < n' + length (content (history s cid ! k))"
    by auto
  have a: "assemble_context s cid = rev acc'" using b by (simp add: assemble_context_def)
  have len: "length (assemble_context s cid) = k" using a k(1,2) by simp
  have "sum_list (map (\<lambda>m. length (snd m)) (rev acc')) = sum_list (map (\<lambda>m. length (snd m)) acc')"
    by (simp add: rev_map[symmetric] del: rev_map)
  also have "\<dots> = n'" using k(2,3) by (simp add: to_ollama_def comp_def)
  finally have total: "sum_list (map (\<lambda>m. length (snd m)) (assemble_context s cid)) = n'"
    using a by simp
  show ?thesis using a len total k by simp
qed
lemma set_history:
  "set (history s cid) = {m \<in> set (chatmessage s). conversation_id m = cid}"
  by (auto simp: history_def)

text \<open>
  C2. As stated (the context is a prefix of the chronological message sequence) the claim
  fails: the walk keeps the newest messages, so the oldest ones are the ones left out.
  In \<open>long_then_short\<close> the context is the recent message alone, which is no prefix of
  the conversation.
\<close>

theorem context_not_prefix:
  "\<not> prefix (assemble_context long_then_short (Some 1))
       (map to_ollama (get_conversation_messages long_then_short (Some 1)))"
  by (simp add: long_then_short_def assemble_context_def history_def
      get_conversation_messages_def to_ollama_def CONTEXT_CHAR_LIMIT_def)

text \<open>
  C2, amended. The context, read backwards, is a prefix of the history in the order the
  walk visits it (newest first). When no two messages of the conversation share a
  timestamp, the context is a suffix, in chronological order, of the conversation's
  stored message sequence, each message reduced to its role and content.
\<close>

theorem context_is_suffix:
  "prefix (rev (assemble_context s cid)) (map to_ollama (history s cid)) \<and>
   (distinct (map created_at (filter (\<lambda>m. conversation_id m = cid) (chatmessage s))) \<longrightarrow>
    suffix (assemble_context s cid) (map to_ollama (get_conversation_messages s cid)))"
proof (intro conjI impI)
  show p: "prefix (rev (assemble_context s cid)) (map to_ollama (history s cid))"
    by (rule assemble_context_rev_prefix)
  assume "distinct (map created_at (filter (\<lambda>m. conversation_id m = cid) (chatmessage s)))"
  then have "history s cid = rev (get_conversation_messages s cid)"
    by (simp add: history_def get_conversation_messages_def sort_desc_rev)
  with p have "prefix (rev (assemble_context s cid))
                 (rev (map to_ollama (get_conversation_messages s cid)))"
    by (simp add: rev_map)
  then show "suffix (assemble_context s cid) (map to_ollama (get_conversation_messages s cid))"
    by (simp add: suffix_to_prefix)
qed

theorem context_is_suffix_witness:
  "distinct (map created_at
      (filter (\<lambda>m. conversation_id m = Some 1) (chatmessage long_then_short))) \<and>
   assemble_context long_then_short (Some 1) = [(''assistant'', ''hi'')] \<and>
   suffix (assemble_context long_then_short (Some 1))
     (map to_ollama (get_conversation_messages long_then_short (Some 1)))"
proof -
  have d: "distinct (map created_at
      (filter (\<lambda>m. conversation_id m = Some 1) (chatmessage long_then_short)))"
    by (simp add: long_then_short_def)
  have a: "assemble_context long_then_short (Some 1) = [(''assistant'', ''hi'')]"
    by (simp add: long_then_short_def assemble_context_def history_def to_ollama_def
        CONTEXT_CHAR_LIMIT_def)
  from context_is_suffix[of long_then_short "Some 1"] d a show ?thesis by blast
qed

text \<open>
  C6. When the most recent message of the history is longer than the budget, the context
  is empty. In every case each entry of the context is the role and the whole content of
  a stored message of the conversation: a message is taken whole or not at all.
\<close>

theorem oversized_latest_message:
  "(history s cid = latest # older \<and> CONTEXT_CHAR_LIMIT < length (content latest) \<longrightarrow>
      assemble_context s cid = []) \<and>
   set (assemble_context s cid) \<subseteq>
     to_ollama ` {m \<in> set (chatmessage s). conversation_id m = cid}"
proof (intro conjI impI)
  assume "history s cid = latest # older \<and> CONTEXT_CHAR_LIMIT < length (content latest)"
  then show "assemble_context s cid = []" by (simp add: assemble_context_def)
next
  have "set (rev (assemble_context s cid)) \<subseteq> set (map to_ollama (history s cid))"
    using assemble_context_rev_prefix[of s cid] by (rule set_mono_prefix)
  then show "set (assemble_context s cid) \<subseteq>
     to_ollama ` {m \<in> set (chatmessage s). conversation_id m = cid}"
    by (simp add: set_history)
qed

theorem oversized_latest_message_witness:
  "(\<exists>latest older. history oversized_latest (Some 1) = latest # older \<and>
      CONTEXT_CHAR_LIMIT < length (content latest)) \<and>
   assemble_context oversized_latest (Some 1) = []"
proof -
  have h: "history oversized_latest (Some 1) =
     \<lparr>msg_id = 2, role = ''user'', content = replicate 8193 CHR ''a'', created_at = 2,
       conversation_id = Some 1\<rparr> #
     [\<lparr>msg_id = 1, role = ''assistant'', content = ''hi'', created_at = 1,
       conversation_id = Some 1\<rparr>]"
    by (simp add: oversized_latest_def history_def)
  have c: "CONTEXT_CHAR_LIMIT < length (content \<lparr>msg_id = 2, role = ''user'',
     content = replicate 8193 CHR ''a'', created_at = 2, conversation_id = Some 1\<rparr>)"
    by (simp add: CONTEXT_CHAR_LIMIT_def)
  from oversized_latest_message[of oversized_latest "Some 1"] h c
  have "assemble_context oversized_latest (Some 1) = []" by blast
  with h c show ?thesis by blast
qed

text \<open>
  C7. The budget is 8192 characters, and the lengths of the messages in the context sum
  to at most the budget. The context is made of the first messages of the newest-first
  history, as many as the context is long; when the history has a further message, that
  message is the first one whose length would take the sum over the budget, and it and
  all older ones are left out.
\<close>

theorem context_within_budget:
  "CONTEXT_CHAR_LIMIT = 8192 \<and>
   sum_list (map (\<lambda>m. length (snd m)) (assemble_context s cid)) \<le> CONTEXT_CHAR_LIMIT \<and>
   rev (assemble_context s cid) =
     map to_ollama (take (length (assemble_context s cid)) (history s cid)) \<and>
   (length (assemble_context s cid) < length (history s cid) \<longrightarrow>
      CONTEXT_CHAR_LIMIT < sum_list (map (\<lambda>m. length (snd m)) (assemble_context s cid))
        + length (content (history s cid ! length (assemble_context s cid))))"
  using assemble_context_take[of s cid] by (simp add: CONTEXT_CHAR_LIMIT_def)

theorem context_within_budget_witness:
  "assemble_context long_then_short (Some 1) = [(''assistant'', ''hi'')] \<and>
   length (assemble_context long_then_short (Some 1)) < length (history long_then_short (Some 1)) \<and>
   CONTEXT_CHAR_LIMIT <
     sum_list (map (\<lambda>m. length (snd m)) (assemble_context long_then_short (Some 1)))
       + length (content (history long_then_short (Some 1)
                   ! length (assemble_context long_then_short (Some 1))))"
proof -
  have a: "assemble_context long_then_short (Some 1) = [(''assistant'', ''hi'')]"
    by (simp add: long_then_short_def assemble_context_def history_def to_ollama_def
        CONTEXT_CHAR_LIMIT_def)
  have l: "length (history long_then_short (Some 1)) = 2"
    by (simp add: long_then_short_def history_def)
  from context_within_budget[of long_then_short "Some 1"]
  have "length (assemble_context long_then_short (Some 1))
          < length (history long_then_short (Some 1)) \<longrightarrow>
        CONTEXT_CHAR_LIMIT <
          sum_list (map (\<lambda>m. length (snd m)) (assemble_context long_then_short (Some 1)))
            + length (content (history long_then_short (Some 1)
                        ! length (assemble_context long_then_short (Some 1))))"
    by blast
  with a l show ?thesis by simp
qed

section \<open>Properties of the stream relay\<close>

lemma deltas_append: "deltas (xs @ ys) = deltas xs @ deltas ys"
  by (induction xs rule: deltas.induct) simp_all

lemma done_messages_append: "done_messages (xs @ ys) = done_messages xs @ done_messages ys"
  by (induction xs rule: done_messages.induct) simp_all

lemma snoc_eq_split:
  assumes "xs @ [e] = pre @ d # post"
  shows "(post = [] \<and> e = d \<and> pre = xs) \<or> (\<exists>post'. post = post' @ [e] \<and> xs = pre @ d # post')"
proof (cases post rule: rev_cases)
  case Nil
  with assms show ?thesis by simp
next
  case (snoc post' e')
  with assms have "xs @ [e] = (pre @ d # post') @ [e']" by simp
  then have "xs = pre @ d # post'" "e = e'" by simp_all
  with snoc show ?thesis by simp
qed

lemma take_content_cases:
  assumes "take_content chunk st = Inr st1"
  shows "st1 = st \<or> (\<exists>piece. piece \<noteq> [] \<and>
           st1 = st\<lparr>full_response_content := full_response_content st @ piece,
                    yielded := yielded st @ [ContentDelta piece]\<rparr>)"
  using assms
  by (auto simp: take_content_def Let_def split: json.splits if_splits)

lemma coherent_delta:
  assumes "coherent base cid st" "piece \<noteq> []"
  shows "coherent base cid (st\<lparr>full_response_content := full_response_content st @ piece,
                    yielded := yielded st @ [ContentDelta piece]\<rparr>)"
proof -
  have "\<And>pre m post. yielded st @ [ContentDelta piece] = pre @ DoneEvent m # post \<Longrightarrow>
      content m = concat (deltas pre) \<and> role m = ''assistant'' \<and> conversation_id m = cid"
  proof -
    fix pre m post
    assume "yielded st @ [ContentDelta piece] = pre @ DoneEvent m # post"
    from snoc_eq_split[OF this] obtain post' where "yielded st = pre @ DoneEvent m # post'"
      by auto
    with assms(1) show "content m = concat (deltas pre) \<and> role m = ''assistant'' \<and> conversation_id m = cid"
      unfolding coherent_def by blast
  qed
  with assms show ?thesis
    unfolding coherent_def by (auto simp: deltas_append done_messages_append)
qed

lemma coherent_persist:
  assumes "coherent base cid st"
  shows "coherent base cid (persist_reply cid st)"
proof -
  define m where "m = \<lparr>msg_id = fst (shd (stamps (db st))), role = ''assistant'',
     content = full_response_content st, created_at = snd (shd (stamps (db st))),
     conversation_id = cid\<rparr>"
  have p: "persist_reply cid st =
     st\<lparr>db := (db st)\<lparr>chatmessage := chatmessage (db st) @ [m], stamps := stl (stamps (db st))\<rparr>,
        yielded := yielded st @ [DoneEvent m]\<rparr>"
    by (simp add: persist_reply_def add_commit_refresh_def Let_def m_def)
  have "\<And>pre m' post. yielded st @ [DoneEvent m] = pre @ DoneEvent m' # post \<Longrightarrow>
      content m' = concat (deltas pre) \<and> role m' = ''assistant'' \<and> conversation_id m' = cid"
  proof -
    fix pre m' post
    assume "yielded st @ [DoneEvent m] = pre @ DoneEvent m' # post"
    from snoc_eq_split[OF this] show
      "content m' = concat (deltas pre) \<and> role m' = ''assistant'' \<and> conversation_id m' = cid"
    proof
      assume "post = [] \<and> DoneEvent m = DoneEvent m' \<and> pre = yielded st"
      then have "m' = m" "pre = yielded st" by simp_all
      with assms show ?thesis unfolding coherent_def by (simp add: m_def)
    next
      assume "\<exists>post'. post = post' @ [DoneEvent m] \<and> yielded st = pre @ DoneEvent m' # post'"
      with assms show ?thesis unfolding coherent_def by blast
    qed
  qed
  with assms show ?thesis
    unfolding coherent_def p by (auto simp: deltas_append done_messages_append)
qed

lemma coherent_chunk:
  assumes "coherent base cid st" "relay_chunk cid chunk st = Inr st'"
  shows "coherent base cid st'"
proof -
  from assms(2) obtain st1 where t: "take_content chunk st = Inr st1"
    and s: "st' = (if done_flag chunk then persist_reply cid st1 else st1)"
    by (auto simp: relay_chunk_def split: sum.splits)
  from take_content_cases[OF t] assms(1) have "coherent base cid st1"
    by (auto intro: coherent_delta)
  with s show ?thesis by (simp add: coherent_persist)
qed

lemma coherent_raised: "coherent base cid (st\<lparr>raised := e\<rparr>) = coherent base cid st"
  by (simp add: coherent_def)

lemma coherent_lines:
  "coherent base cid st \<Longrightarrow> coherent base cid (relay_lines cid ls st)"
  by (induction cid ls st rule: relay_lines.induct)
     (auto simp: coherent_raised coherent_chunk split: sum.splits)

lemma coherent_stream:
  "coherent (chatmessage s) cid (stream_ollama_response ollama request cid s)"
proof -
  let ?resp = "ollama (chat_model request, assemble_context s cid)"
  let ?st = "\<lparr>full_response_content = [], yielded = [], db = s, raised = None\<rparr>"
  have c: "coherent (chatmessage s) cid ?st"
    by (simp add: coherent_def)
  show ?thesis
  proof (cases "status_code ?resp = 200")
    case True
    then have "stream_ollama_response ollama request cid s = relay_lines cid (aiter_lines ?resp) ?st"
      by (simp add: stream_ollama_response_def Let_def)
    with c show ?thesis by (simp add: coherent_lines)
  next
    case False
    show ?thesis
    proof (cases "error_content ?resp")
      case None
      with False have "stream_ollama_response ollama request cid s
          = ?st\<lparr>raised := Some UnicodeDecodeError\<rparr>"
        by (simp add: stream_ollama_response_def Let_def)
      with c show ?thesis by (simp only: coherent_raised)
    next
      case (Some body)
      with False have "stream_ollama_response ollama request cid s
          = ?st\<lparr>yielded := [ErrorEvent (''Ollama API Error: '' @ body)]\<rparr>"
        by (simp add: stream_ollama_response_def Let_def)
      then show ?thesis by (simp add: coherent_def Cons_eq_append_conv)
    qed
  qed
qed

lemma take_content_raised: "take_content chunk st = Inr st1 \<Longrightarrow> raised st1 = raised st"
  by (drule take_content_cases) auto

lemma persist_reply_done:
  "\<exists>m. yielded (persist_reply cid st) = yielded st @ [DoneEvent m] \<and>
       raised (persist_reply cid st) = raised st \<and>
       full_response_content (persist_reply cid st) = full_response_content st"
  by (simp add: persist_reply_def add_commit_refresh_def Let_def)

lemma relay_chunk_done:
  assumes "relay_chunk cid chunk st = Inr st'"
  shows "raised st' = raised st \<and>
         length (done_messages (yielded st')) =
           length (done_messages (yielded st)) + (if done_flag chunk then 1 else 0)"
proof -
  from assms obtain st1 where t: "take_content chunk st = Inr st1"
    and s: "st' = (if done_flag chunk then persist_reply cid st1 else st1)"
    by (auto simp: relay_chunk_def split: sum.splits)
  from take_content_cases[OF t] have d: "done_messages (yielded st1) = done_messages (yielded st)"
    by (auto simp: done_messages_append)
  from persist_reply_done[of cid st1] obtain m where
    "yielded (persist_reply cid st1) = yielded st1 @ [DoneEvent m]"
    "raised (persist_reply cid st1) = raised st1" by blast
  with s d take_content_raised[OF t] show ?thesis by (simp add: done_messages_append)
qed

lemma done_count_le:
  "length (done_messages (yielded (relay_lines cid ls st)))
     \<le> length (done_messages (yielded st)) + length (filter flagged ls)"
proof (induction cid ls st rule: relay_lines.induct)
  case (4 cid chunk rest st)
  show ?case
  proof (cases "relay_chunk cid chunk st")
    case (Inl e) then show ?thesis by simp
  next
    case (Inr st')
    with 4[OF Inr] relay_chunk_done[OF Inr] show ?thesis
      by (cases "done_flag chunk") simp_all
  qed
qed simp_all

lemma relay_lines_raised: "raised st \<noteq> None \<Longrightarrow> raised (relay_lines cid ls st) \<noteq> None"
proof (induction cid ls st rule: relay_lines.induct)
  case (4 cid chunk rest st)
  show ?case
  proof (cases "relay_chunk cid chunk st")
    case (Inl e) then show ?thesis by simp
  next
    case (Inr st')
    with 4 relay_chunk_done[OF Inr] show ?thesis by simp
  qed
qed simp_all

lemma done_count_eq:
  "raised (relay_lines cid ls st) = None \<Longrightarrow>
   length (done_messages (yielded (relay_lines cid ls st)))
     = length (done_messages (yielded st)) + length (filter flagged ls)"
proof (induction cid ls st rule: relay_lines.induct)
  case (4 cid chunk rest st)
  show ?case
  proof (cases "relay_chunk cid chunk st")
    case (Inl e) with 4(2) show ?thesis by simp
  next
    case (Inr st')
    with 4 relay_chunk_done[OF Inr] show ?thesis
      by (cases "done_flag chunk") simp_all
  qed
qed simp_all

lemma done_messages_set: "m \<in> set (done_messages es) \<longleftrightarrow> DoneEvent m \<in> set es"
  by (induction es rule: done_messages.induct) auto

lemma stream_done_count:
  assumes "status_code (ollama (chat_model request, assemble_context s cid)) = 200"
  shows "length (done_messages (yielded (stream_ollama_response ollama request cid s)))
           \<le> length (filter flagged (aiter_lines (ollama (chat_model request, assemble_context s cid))))"
    and "raised (stream_ollama_response ollama request cid s) = None \<Longrightarrow>
         length (done_messages (yielded (stream_ollama_response ollama request cid s)))
           = length (filter flagged (aiter_lines (ollama (chat_model request, assemble_context s cid))))"
  using assms
    done_count_le[of cid "aiter_lines (ollama (chat_model request, assemble_context s cid))"
      "\<lparr>full_response_content = [], yielded = [], db = s, raised = None\<rparr>"]
    done_count_eq[of cid "aiter_lines (ollama (chat_model request, assemble_context s cid))"
      "\<lparr>full_response_content = [], yielded = [], db = s, raised = None\<rparr>"]
  by (simp_all add: stream_ollama_response_def Let_def)

lemma stream_error_branch:
  assumes "status_code (ollama (chat_model request, assemble_context s cid)) \<noteq> 200"
    and "error_content (ollama (chat_model request, assemble_context s cid)) = Some body"
  shows "stream_ollama_response ollama request cid s =
     \<lparr>full_response_content = [],
      yielded = [ErrorEvent (''Ollama API Error: '' @ body)],
      db = s, raised = None\<rparr>"
  using assms by (simp add: stream_ollama_response_def Let_def)

lemma stream_decode_branch:
  assumes "status_code (ollama (chat_model request, assemble_context s cid)) \<noteq> 200"
    and "error_content (ollama (chat_model request, assemble_context s cid)) = None"
  shows "stream_ollama_response ollama request cid s =
     \<lparr>full_response_content = [], yielded = [], db = s, raised = Some UnicodeDecodeError\<rparr>"
  using assms by (simp add: stream_ollama_response_def Let_def)

lemma stream_failure_quiet:
  assumes "status_code (ollama (chat_model request, assemble_context s cid)) \<noteq> 200"
  shows "deltas (yielded (stream_ollama_response ollama request cid s)) = [] \<and>
         done_messages (yielded (stream_ollama_response ollama request cid s)) = [] \<and>
         db (stream_ollama_response ollama request cid s) = s"
  using assms by (simp add: stream_ollama_response_def Let_def split: option.splits)

lemmas relay_eval = stream_ollama_response_def relay_chunk_def take_content_def done_flag_def
  persist_reply_def add_commit_refresh_def dict_get_def ollama_chunk_def Let_def

text \<open>
  C1. As stated the claim fails: nothing ends the loop at the completion flag, so a
  fragment on a later line is still yielded, after the assistant message has been stored.
  With the body of \<open>content_after_done\<close> (status 200, the flag on the first line) the
  fragments yielded are \<open>a\<close> and \<open>b\<close>, and the message stored and carried by the
  done event has the content \<open>a\<close>.
\<close>

theorem deltas_after_done_counterexample:
  "status_code (content_after_done (chat_model ask, assemble_context asked_store (Some 1))) = 200 \<and>
   flagged (hd (aiter_lines
      (content_after_done (chat_model ask, assemble_context asked_store (Some 1))))) \<and>
   yielded (stream_ollama_response content_after_done ask (Some 1) asked_store) =
     [ContentDelta ''a'',
      DoneEvent \<lparr>msg_id = 2, role = ''assistant'', content = ''a'', created_at = 2,
                 conversation_id = Some 1\<rparr>,
      ContentDelta ''b''] \<and>
   concat (deltas (yielded (stream_ollama_response content_after_done ask (Some 1) asked_store)))
     \<noteq> content \<lparr>msg_id = 2, role = ''assistant'', content = ''a'', created_at = 2,
                 conversation_id = Some 1\<rparr> \<and>
   chatmessage (db (stream_ollama_response content_after_done ask (Some 1) asked_store)) =
     chatmessage asked_store @
     [\<lparr>msg_id = 2, role = ''assistant'', content = ''a'', created_at = 2,
       conversation_id = Some 1\<rparr>]"
  by (simp add: relay_eval content_after_done_def asked_store_def)

text \<open>
  C1, amended. A response with status 200 that is read to its end without an exception
  and has a line carrying the completion flag yields a done event. For every done event
  of the stream, the concatenation, in emission order, of the fragments of the
  content-delta events yielded before it equals the content of the assistant message it
  carries, and that message is stored; when no content-delta event follows the done
  event, this is the concatenation of all the fragments of the stream.
\<close>

theorem deltas_before_done:
  fixes ollama request cid s
  defines "resp \<equiv> ollama (chat_model request, assemble_context s cid)"
  defines "r \<equiv> stream_ollama_response ollama request cid s"
  shows
  "(status_code resp = 200 \<and> raised r = None \<and> (\<exists>line\<in>set (aiter_lines resp). flagged line)
      \<longrightarrow> (\<exists>pre m post. yielded r = pre @ DoneEvent m # post)) \<and>
   (\<forall>pre m post. yielded r = pre @ DoneEvent m # post \<longrightarrow>
      concat (deltas pre) = content m \<and> role m = ''assistant'' \<and> conversation_id m = cid \<and>
      m \<in> set (chatmessage (db r)) \<and>
      (deltas post = [] \<longrightarrow> concat (deltas (yielded r)) = content m))"
proof (intro conjI impI allI)
  have c: "coherent (chatmessage s) cid r" unfolding r_def by (rule coherent_stream)
  {
    assume a: "status_code resp = 200 \<and> raised r = None \<and>
      (\<exists>line\<in>set (aiter_lines resp). flagged line)"
    then have "filter flagged (aiter_lines resp) \<noteq> []" by (auto simp: filter_empty_conv)
    moreover from a have "length (done_messages (yielded r)) = length (filter flagged (aiter_lines resp))"
      unfolding r_def resp_def by (simp add: stream_done_count(2))
    ultimately have "done_messages (yielded r) \<noteq> []" by auto
    then obtain m where "m \<in> set (done_messages (yielded r))" by (cases "done_messages (yielded r)") auto
    then have "DoneEvent m \<in> set (yielded r)" by (simp add: done_messages_set)
    then show "\<exists>pre m post. yielded r = pre @ DoneEvent m # post" by (meson split_list)
  }
  fix pre m post
  assume y: "yielded r = pre @ DoneEvent m # post"
  with c show p: "concat (deltas pre) = content m" and "role m = ''assistant''"
    and "conversation_id m = cid"
    unfolding coherent_def by (metis)+
  from y have "m \<in> set (done_messages (yielded r))" by (simp add: done_messages_set)
  with c show "m \<in> set (chatmessage (db r))" unfolding coherent_def by simp
  assume "deltas post = []"
  with y p show "concat (deltas (yielded r)) = content m" by (simp add: deltas_append)
qed

theorem deltas_before_done_witness:
  "status_code (well_behaved (chat_model ask, assemble_context asked_store (Some 1))) = 200 \<and>
   raised (stream_ollama_response well_behaved ask (Some 1) asked_store) = None \<and>
   yielded (stream_ollama_response well_behaved ask (Some 1) asked_store) =
     [ContentDelta ''Hel'', ContentDelta ''lo''] @
     DoneEvent \<lparr>msg_id = 2, role = ''assistant'', content = ''Hello'', created_at = 2,
                conversation_id = Some 1\<rparr> # [] \<and>
   concat (deltas [ContentDelta ''Hel'', ContentDelta ''lo'']) = ''Hello'' \<and>
   \<lparr>msg_id = 2, role = ''assistant'', content = ''Hello'', created_at = 2,
     conversation_id = Some 1\<rparr>
     \<in> set (chatmessage (db (stream_ollama_response well_behaved ask (Some 1) asked_store)))"
proof -
  have s: "status_code (well_behaved (chat_model ask, assemble_context asked_store (Some 1))) = 200"
    by (simp add: well_behaved_def)
  have n: "raised (stream_ollama_response well_behaved ask (Some 1) asked_store) = None"
    by (simp add: relay_eval well_behaved_def asked_store_def)
  have y: "yielded (stream_ollama_response well_behaved ask (Some 1) asked_store) =
     [ContentDelta ''Hel'', ContentDelta ''lo''] @
     DoneEvent \<lparr>msg_id = 2, role = ''assistant'', content = ''Hello'', created_at = 2,
                conversation_id = Some 1\<rparr> # []"
    by (simp add: relay_eval well_behaved_def asked_store_def)
  from deltas_before_done[where ollama = well_behaved and request = ask and s = asked_store
      and cid = "Some 1"] y
  have "concat (deltas [ContentDelta ''Hel'', ContentDelta ''lo'']) =
          content \<lparr>msg_id = 2, role = ''assistant'', content = ''Hello'', created_at = 2,
                conversation_id = Some 1\<rparr> \<and>
        \<lparr>msg_id = 2, role = ''assistant'', content = ''Hello'', created_at = 2,
          conversation_id = Some 1\<rparr>
          \<in> set (chatmessage (db (stream_ollama_response well_behaved ask (Some 1) asked_store)))"
    by blast
  with s n y show ?thesis by simp
qed

text \<open>
  C3. As stated the claim fails: line 145 stores a message at every line whose
  completion flag is true. The body of \<open>done_twice\<close> carries the flag on two lines, and
  the relay inserts two assistant messages, the first with the accumulator as it was at
  the first flag.
\<close>

theorem two_done_lines_two_writes:
  "status_code (done_twice (chat_model ask, assemble_context asked_store (Some 1))) = 200 \<and>
   chatmessage (db (stream_ollama_response done_twice ask (Some 1) asked_store)) =
     chatmessage asked_store @
     [\<lparr>msg_id = 2, role = ''assistant'', content = ''a'', created_at = 2,
       conversation_id = Some 1\<rparr>,
      \<lparr>msg_id = 3, role = ''assistant'', content = ''ab'', created_at = 3,
       conversation_id = Some 1\<rparr>] \<and>
   length (chatmessage (db (stream_ollama_response done_twice ask (Some 1) asked_store))) =
     length (chatmessage asked_store) + 2"
  by (simp add: relay_eval done_twice_def asked_store_def)

text \<open>
  C3, amended. The writes of one relay invocation are exactly the inserts of the
  messages of its done events, in order, after the rows that were there: each is an
  assistant message of the conversation whose content is the accumulator at its event.
  Their number is at most the number of lines carrying the completion flag (and equal to
  it when the status is 200 and no exception is raised), whatever the number of
  fragments; so a body with at most one such line causes at most one write.
\<close>

theorem write_per_done_event:
  fixes ollama request cid s
  defines "resp \<equiv> ollama (chat_model request, assemble_context s cid)"
  defines "r \<equiv> stream_ollama_response ollama request cid s"
  shows
  "chatmessage (db r) = chatmessage s @ done_messages (yielded r) \<and>
   (\<forall>m\<in>set (done_messages (yielded r)).
      role m = ''assistant'' \<and> conversation_id m = cid \<and>
      (\<exists>pre post. yielded r = pre @ DoneEvent m # post \<and> content m = concat (deltas pre))) \<and>
   length (done_messages (yielded r)) \<le> length (filter flagged (aiter_lines resp)) \<and>
   (status_code resp = 200 \<and> raised r = None \<longrightarrow>
      length (done_messages (yielded r)) = length (filter flagged (aiter_lines resp))) \<and>
   (length (filter flagged (aiter_lines resp)) \<le> 1 \<longrightarrow>
      length (chatmessage (db r)) \<le> length (chatmessage s) + 1)"
proof -
  have c: "coherent (chatmessage s) cid r" unfolding r_def by (rule coherent_stream)
  then have rows: "chatmessage (db r) = chatmessage s @ done_messages (yielded r)"
    unfolding coherent_def by simp
  have each: "\<forall>m\<in>set (done_messages (yielded r)).
      role m = ''assistant'' \<and> conversation_id m = cid \<and>
      (\<exists>pre post. yielded r = pre @ DoneEvent m # post \<and> content m = concat (deltas pre))"
  proof
    fix m assume "m \<in> set (done_messages (yielded r))"
    then have "DoneEvent m \<in> set (yielded r)" by (simp add: done_messages_set)
    then obtain pre post where y: "yielded r = pre @ DoneEvent m # post" by (meson split_list)
    with c have "content m = concat (deltas pre) \<and> role m = ''assistant'' \<and> conversation_id m = cid"
      unfolding coherent_def by blast
    with y show "role m = ''assistant'' \<and> conversation_id m = cid \<and>
      (\<exists>pre post. yielded r = pre @ DoneEvent m # post \<and> content m = concat (deltas pre))"
      by blast
  qed
  have le: "length (done_messages (yielded r)) \<le> length (filter flagged (aiter_lines resp))"
  proof (cases "status_code resp = 200")
    case True
    then show ?thesis unfolding r_def resp_def by (rule stream_done_count(1))
  next
    case False
    then show ?thesis unfolding r_def resp_def by (simp add: stream_failure_quiet)
  qed
  have eq: "status_code resp = 200 \<and> raised r = None \<longrightarrow>
      length (done_messages (yielded r)) = length (filter flagged (aiter_lines resp))"
    unfolding r_def resp_def by (simp add: stream_done_count(2))
  from rows le have "length (filter flagged (aiter_lines resp)) \<le> 1 \<longrightarrow>
      length (chatmessage (db r)) \<le> length (chatmessage s) + 1" by simp
  with rows each le eq show ?thesis by blast
qed

theorem write_per_done_event_witness:
  "status_code (well_behaved (chat_model ask, assemble_context asked_store (Some 1))) = 200 \<and>
   raised (stream_ollama_response well_behaved ask (Some 1) asked_store) = None \<and>
   length (filter flagged
     (aiter_lines (well_behaved (chat_model ask, assemble_context asked_store (Some 1))))) = 1 \<and>
   done_messages (yielded (stream_ollama_response well_behaved ask (Some 1) asked_store)) =
     [\<lparr>msg_id = 2, role = ''assistant'', content = ''Hello'', created_at = 2,
       conversation_id = Some 1\<rparr>] \<and>
   length (chatmessage (db (stream_ollama_response well_behaved ask (Some 1) asked_store)))
     \<le> length (chatmessage asked_store) + 1"
proof -
  have s: "status_code (well_behaved (chat_model ask, assemble_context asked_store (Some 1))) = 200"
    by (simp add: well_behaved_def)
  have n: "raised (stream_ollama_response well_behaved ask (Some 1) asked_store) = None"
    by (simp add: relay_eval well_behaved_def asked_store_def)
  have f: "length (filter flagged
     (aiter_lines (well_behaved (chat_model ask, assemble_context asked_store (Some 1))))) = 1"
    by (simp add: well_behaved_def done_flag_def dict_get_def ollama_chunk_def)
  have d: "done_messages (yielded (stream_ollama_response well_behaved ask (Some 1) asked_store)) =
     [\<lparr>msg_id = 2, role = ''assistant'', content = ''Hello'', created_at = 2,
       conversation_id = Some 1\<rparr>]"
    by (simp add: relay_eval well_behaved_def asked_store_def)
  from write_per_done_event[where ollama = well_behaved and request = ask and s = asked_store
      and cid = "Some 1"] f
  have "length (chatmessage (db (stream_ollama_response well_behaved ask (Some 1) asked_store)))
     \<le> length (chatmessage asked_store) + 1" by simp
  with s n f d show ?thesis by blast
qed

text \<open>
  C5. As stated the claim fails: line 137 decodes the body before it yields, outside any
  \<^verbatim>\<open>try\<close>. On a response with status 500 whose body is not valid UTF-8 the relay
  yields no event at all and ends with the exception.
\<close>

theorem undecodable_error_body:
  "status_code (garbled_error (chat_model ask, assemble_context asked_store (Some 1))) \<noteq> 200 \<and>
   yielded (stream_ollama_response garbled_error ask (Some 1) asked_store) = [] \<and>
   raised (stream_ollama_response garbled_error ask (Some 1) asked_store)
     = Some UnicodeDecodeError"
  by (simp add: stream_ollama_response_def Let_def garbled_error_def)

text \<open>
  C5, amended. When the status of the upstream response is not 200, the relay yields no
  content-delta and no done event and leaves the database as it was. When the body
  decodes as text, it yields exactly one event, the error event carrying that text, and
  ends without an exception; when the body does not decode, it yields nothing and ends
  with \<^verbatim>\<open>UnicodeDecodeError\<close>.
\<close>

theorem upstream_failure:
  assumes "status_code (ollama (chat_model request, assemble_context s cid)) \<noteq> 200"
  shows "deltas (yielded (stream_ollama_response ollama request cid s)) = [] \<and>
         done_messages (yielded (stream_ollama_response ollama request cid s)) = [] \<and>
         db (stream_ollama_response ollama request cid s) = s \<and>
         (\<forall>body. error_content (ollama (chat_model request, assemble_context s cid)) = Some body
            \<longrightarrow> yielded (stream_ollama_response ollama request cid s) =
                  [ErrorEvent (''Ollama API Error: '' @ body)] \<and>
                raised (stream_ollama_response ollama request cid s) = None) \<and>
         (error_content (ollama (chat_model request, assemble_context s cid)) = None
            \<longrightarrow> yielded (stream_ollama_response ollama request cid s) = [] \<and>
                raised (stream_ollama_response ollama request cid s) = Some UnicodeDecodeError)"
  using assms stream_failure_quiet[where ollama = ollama and request = request and s = s
      and cid = cid, OF assms]
  by (simp add: stream_error_branch stream_decode_branch)

theorem upstream_failure_witness:
  "status_code (server_error (chat_model ask, assemble_context asked_store (Some 1))) \<noteq> 200 \<and>
   error_content (server_error (chat_model ask, assemble_context asked_store (Some 1)))
     = Some ''boom'' \<and>
   yielded (stream_ollama_response server_error ask (Some 1) asked_store) =
     [ErrorEvent ''Ollama API Error: boom''] \<and>
   raised (stream_ollama_response server_error ask (Some 1) asked_store) = None \<and>
   db (stream_ollama_response server_error ask (Some 1) asked_store) = asked_store"
proof -
  have h: "status_code (server_error (chat_model ask, assemble_context asked_store (Some 1))) \<noteq> 200"
    by (simp add: server_error_def)
  have b: "error_content (server_error (chat_model ask, assemble_context asked_store (Some 1)))
     = Some ''boom''"
    by (simp add: server_error_def)
  from upstream_failure[where ollama = server_error and request = ask and s = asked_store
      and cid = "Some 1", OF h] b
  have "yielded (stream_ollama_response server_error ask (Some 1) asked_store) =
     [ErrorEvent (''Ollama API Error: '' @ ''boom'')] \<and>
   raised (stream_ollama_response server_error ask (Some 1) asked_store) = None \<and>
   db (stream_ollama_response server_error ask (Some 1) asked_store) = asked_store"
    by blast
  with h b show ?thesis by simp
qed

text \<open>
  C9. On a line that decodes to a dict whose message is a dict with the empty string as
  content, the step raises nothing, leaves the accumulator unchanged and yields no
  content-delta event (at most the done event). Every content-delta event of a relay
  carries a fragment that is not empty.
\<close>

theorem empty_fragment_not_relayed:
  "(dict_get d ''message'' (JObj []) = JObj msg \<and> dict_get msg ''content'' JNull = JStr [] \<longrightarrow>
      (\<exists>st'. relay_chunk cid (JObj d) st = Inr st' \<and>
         full_response_content st' = full_response_content st \<and>
         (yielded st' = yielded st \<or> (\<exists>m. yielded st' = yielded st @ [DoneEvent m])))) \<and>
   (\<forall>piece. ContentDelta piece \<in> set (yielded (stream_ollama_response ollama request cid s))
      \<longrightarrow> piece \<noteq> [])"
proof (intro conjI impI)
  assume a: "dict_get d ''message'' (JObj []) = JObj msg \<and> dict_get msg ''content'' JNull = JStr []"
  then have r: "relay_chunk cid (JObj d) st =
      Inr (if done_flag (JObj d) then persist_reply cid st else st)"
    by (simp add: relay_chunk_def take_content_def)
  from persist_reply_done[of cid st] obtain m where
    "yielded (persist_reply cid st) = yielded st @ [DoneEvent m]"
    "full_response_content (persist_reply cid st) = full_response_content st" by blast
  with r show "\<exists>st'. relay_chunk cid (JObj d) st = Inr st' \<and>
         full_response_content st' = full_response_content st \<and>
         (yielded st' = yielded st \<or> (\<exists>m. yielded st' = yielded st @ [DoneEvent m]))"
    by (cases "done_flag (JObj d)") simp_all
next
  have "coherent (chatmessage s) cid (stream_ollama_response ollama request cid s)"
    by (rule coherent_stream)
  then show "\<forall>piece. ContentDelta piece \<in> set (yielded (stream_ollama_response ollama request cid s))
      \<longrightarrow> piece \<noteq> []"
    unfolding coherent_def by blast
qed

theorem empty_fragment_not_relayed_witness:
  "dict_get [(''message'', JObj [(''role'', JStr ''assistant''), (''content'', JStr [])]),
             (''done'', JBool False)] ''message'' (JObj [])
     = JObj [(''role'', JStr ''assistant''), (''content'', JStr [])] \<and>
   dict_get [(''role'', JStr ''assistant''), (''content'', JStr [])] ''content'' JNull = JStr [] \<and>
   (\<exists>st'. relay_chunk (Some 1)
       (JObj [(''message'', JObj [(''role'', JStr ''assistant''), (''content'', JStr [])]),
              (''done'', JBool False)])
       \<lparr>full_response_content = ''Hel'', yielded = [ContentDelta ''Hel''], db = asked_store,
        raised = None\<rparr> = Inr st' \<and>
      full_response_content st' = ''Hel'')"
proof -
  have h1: "dict_get [(''message'', JObj [(''role'', JStr ''assistant''), (''content'', JStr [])]),
             (''done'', JBool False)] ''message'' (JObj [])
     = JObj [(''role'', JStr ''assistant''), (''content'', JStr [])]"
    by (simp add: dict_get_def)
  have h2: "dict_get [(''role'', JStr ''assistant''), (''content'', JStr [])] ''content'' JNull
     = JStr []"
    by (simp add: dict_get_def)
  from empty_fragment_not_relayed[where cid = "Some 1" and ollama = well_behaved
      and request = ask and s = asked_store
      and d = "[(''message'', JObj [(''role'', JStr ''assistant''), (''content'', JStr [])]),
             (''done'', JBool False)]"
      and msg = "[(''role'', JStr ''assistant''), (''content'', JStr [])]"
      and st = "\<lparr>full_response_content = ''Hel'', yielded = [ContentDelta ''Hel''],
                db = asked_store, raised = None\<rparr>"] h1 h2
  have "\<exists>st'. relay_chunk (Some 1)
       (JObj [(''message'', JObj [(''role'', JStr ''assistant''), (''content'', JStr [])]),
              (''done'', JBool False)])
       \<lparr>full_response_content = ''Hel'', yielded = [ContentDelta ''Hel''], db = asked_store,
        raised = None\<rparr> = Inr st' \<and>
      full_response_content st' = ''Hel''"
    by (simp, blast)
  with h1 h2 show ?thesis by blast
qed

section \<open>Properties of the regeneration\<close>

lemma session_delete_rows:
  "chatmessage (session_delete s d) = filter (\<lambda>m. msg_id m \<noteq> msg_id d) (chatmessage s)"
  "stamps (session_delete s d) = stamps s"
  by (simp_all add: session_delete_def)

lemma foldl_session_delete:
  "chatmessage (foldl session_delete s ds) =
     filter (\<lambda>m. msg_id m \<notin> msg_id ` set ds) (chatmessage s) \<and>
   stamps (foldl session_delete s ds) = stamps s"
proof (induction ds arbitrary: s)
  case Nil
  then show ?case by simp
next
  case (Cons d ds)
  have "filter (\<lambda>m. msg_id m \<notin> msg_id ` set ds)
          (filter (\<lambda>m. msg_id m \<noteq> msg_id d) (chatmessage s)) =
        filter (\<lambda>m. msg_id m \<notin> msg_id ` set (d # ds)) (chatmessage s)"
    by (auto intro: filter_cong)
  with Cons.IH[of "session_delete s d"] show ?case
    by (simp add: session_delete_rows)
qed

lemma delete_from_rows:
  assumes "distinct (map msg_id (chatmessage s))"
  shows "chatmessage (delete_from s cid t0) =
           filter (\<lambda>m. \<not> (conversation_id m = cid \<and> t0 \<le> created_at m)) (chatmessage s)"
    and "stamps (delete_from s cid t0) = stamps s"
proof -
  have inj: "inj_on msg_id (set (chatmessage s))"
    using assms by (simp add: distinct_map)
  have "\<And>m. m \<in> set (chatmessage s) \<Longrightarrow>
      (msg_id m \<notin> msg_id ` set (messages_to_delete s cid t0)) =
      (\<not> (conversation_id m = cid \<and> t0 \<le> created_at m))"
    using inj by (auto simp: messages_to_delete_def inj_on_def)
  then show "chatmessage (delete_from s cid t0) =
           filter (\<lambda>m. \<not> (conversation_id m = cid \<and> t0 \<le> created_at m)) (chatmessage s)"
    by (simp add: delete_from_def foldl_session_delete cong: filter_cong)
  show "stamps (delete_from s cid t0) = stamps s"
    by (simp add: delete_from_def foldl_session_delete)
qed

lemma session_get_Some:
  "session_get s i = Some m \<Longrightarrow> m \<in> set (chatmessage s) \<and> msg_id m = i"
  by (auto simp: session_get_def find_Some_iff)

lemma session_get_None:
  "session_get s i = None \<longleftrightarrow> i \<notin> msg_id ` set (chatmessage s)"
  by (auto simp: session_get_def find_None_iff)

lemma sort_key_snoc:
  fixes f :: "'a \<Rightarrow> int"
  assumes "\<forall>y\<in>set xs. f y \<le> f x"
  shows "sort_key f (xs @ [x]) = sort_key f xs @ [x]"
proof (rule properties_for_sort_key)
  show "mset (sort_key f xs @ [x]) = mset (xs @ [x])" by simp
next
  fix k
  have "filter (\<lambda>y. f y = f k) (sort_key f xs) = filter (\<lambda>y. f y = f k) xs"
    by (rule sort_key_stable)
  then have "filter (\<lambda>y. f k = f y) (sort_key f xs) = filter (\<lambda>y. f k = f y) xs"
    by (simp add: eq_commute)
  then show "filter (\<lambda>y. f k = f y) (sort_key f xs @ [x]) = filter (\<lambda>y. f k = f y) (xs @ [x])"
    by simp
next
  show "sorted (map f (sort_key f xs @ [x]))"
    using assms by (simp add: sorted_append)
qed

lemma filter_below_sorted:
  fixes f :: "'a \<Rightarrow> int"
  assumes "sorted (map f xs)"
  shows "filter (\<lambda>m. f m < t) xs = takeWhile (\<lambda>m. f m < t) xs"
  using assms
proof (induction xs)
  case Nil
  then show ?case by simp
next
  case (Cons a xs)
  show ?case
  proof (cases "f a < t")
    case True
    with Cons show ?thesis by simp
  next
    case False
    with Cons.prems have "\<forall>y\<in>set xs. \<not> f y < t" by auto
    then have "filter (\<lambda>m. f m < t) xs = []" by (simp add: filter_empty_conv)
    with False show ?thesis by simp
  qed
qed

lemma conversation_after_delete:
  assumes "distinct (map msg_id (chatmessage s))"
  shows "get_conversation_messages (delete_from s cid t0) cid =
           takeWhile (\<lambda>m. created_at m < t0) (get_conversation_messages s cid)"
proof -
  have "filter (\<lambda>m. conversation_id m = cid)
          (filter (\<lambda>m. \<not> (conversation_id m = cid \<and> t0 \<le> created_at m)) (chatmessage s)) =
        filter (\<lambda>m. created_at m < t0) (filter (\<lambda>m. conversation_id m = cid) (chatmessage s))"
    by (auto intro: filter_cong)
  then have "get_conversation_messages (delete_from s cid t0) cid =
      filter (\<lambda>m. created_at m < t0) (get_conversation_messages s cid)"
    by (simp add: get_conversation_messages_def delete_from_rows[OF assms] filter_sort)
  also have "\<dots> = takeWhile (\<lambda>m. created_at m < t0) (get_conversation_messages s cid)"
    by (rule filter_below_sorted) (simp add: get_conversation_messages_def)
  finally show ?thesis .
qed

lemma rewind_fields:
  assumes "distinct (map msg_id (chatmessage s))"
  shows "fst (rewind s original text) =
           \<lparr>msg_id = fst (shd (stamps s)), role = ''user'', content = text,
            created_at = snd (shd (stamps s)), conversation_id = conversation_id original\<rparr>"
    and "chatmessage (snd (rewind s original text)) =
           chatmessage (delete_from s (conversation_id original) (created_at original))
             @ [fst (rewind s original text)]"
    and "stamps (snd (rewind s original text)) = stl (stamps s)"
  by (simp_all add: rewind_def add_commit_refresh_def Let_def delete_from_rows[OF assms])

lemma regenerate_success:
  assumes "session_get s (message_id request) = Some original" "role original = ''user''"
  shows "regenerate_from_prompt ollama request s =
     (Inr ((stream_ollama_response ollama
              \<lparr>prompt = new_prompt request, chat_conversation_id = conversation_id original,
               chat_model = model request\<rparr>
              (conversation_id original) (snd (rewind s original (new_prompt request))))
           \<lparr>yielded := UserMessage (fst (rewind s original (new_prompt request)))
                         (conversation_id original)
              # yielded (stream_ollama_response ollama
                  \<lparr>prompt = new_prompt request, chat_conversation_id = conversation_id original,
                   chat_model = model request\<rparr>
                  (conversation_id original) (snd (rewind s original (new_prompt request))))\<rparr>),
      db (stream_ollama_response ollama
              \<lparr>prompt = new_prompt request, chat_conversation_id = conversation_id original,
               chat_model = model request\<rparr>
              (conversation_id original) (snd (rewind s original (new_prompt request)))))"
  using assms by (simp add: regenerate_from_prompt_def Let_def split: prod.splits)

lemma conversation_after_rewind:
  assumes d: "distinct (map msg_id (chatmessage s))"
    and c: "created_at original \<le> snd (shd (stamps s))"
  shows "get_conversation_messages (snd (rewind s original text)) (conversation_id original) =
     takeWhile (\<lambda>m. created_at m < created_at original)
       (get_conversation_messages s (conversation_id original))
     @ [fst (rewind s original text)]"
proof -
  let ?cid = "conversation_id original" and ?t0 = "created_at original"
  let ?new = "fst (rewind s original text)"
  let ?kept = "filter (\<lambda>m. conversation_id m = ?cid) (chatmessage (delete_from s ?cid ?t0))"
  have n: "conversation_id ?new = ?cid" "created_at ?new = snd (shd (stamps s))"
    by (simp_all add: rewind_fields(1)[OF d])
  have "\<forall>y\<in>set ?kept. created_at y < ?t0" by (auto simp: delete_from_rows(1)[OF d])
  with c n have le: "\<forall>y\<in>set ?kept. created_at y \<le> created_at ?new" by fastforce
  have "get_conversation_messages (snd (rewind s original text)) ?cid =
      sort_key created_at (?kept @ [?new])"
    by (simp add: get_conversation_messages_def rewind_fields(2)[OF d] n)
  also have "\<dots> = sort_key created_at ?kept @ [?new]"
    using le by (rule sort_key_snoc)
  also have "sort_key created_at ?kept = get_conversation_messages (delete_from s ?cid ?t0) ?cid"
    by (simp add: get_conversation_messages_def)
  finally show ?thesis by (simp add: conversation_after_delete[OF d])
qed

lemmas regen_eval = regenerate_from_prompt_def session_get_def rewind_def delete_from_def
  messages_to_delete_def session_delete_def assemble_context_def history_def to_ollama_def
  CONTEXT_CHAR_LIMIT_def relay_eval

lemma fresh_rows_refl: "fresh_rows s s"
  by (simp add: fresh_rows_def)

lemma fresh_rows_trans: "fresh_rows s s' \<Longrightarrow> fresh_rows s' s'' \<Longrightarrow> fresh_rows s s''"
  unfolding fresh_rows_def by (meson image_mono subsetD subset_trans)

lemma fresh_rows_add: "fresh_rows s (snd (add_commit_refresh s r c cid))"
  by (auto simp: fresh_rows_def add_commit_refresh_def Let_def shd_sset dest: stl_sset)

lemma fresh_rows_chunk:
  assumes "relay_chunk cid chunk st = Inr st'"
  shows "fresh_rows (db st) (db st')"
proof -
  from assms obtain st1 where t: "take_content chunk st = Inr st1"
    and s: "st' = (if done_flag chunk then persist_reply cid st1 else st1)"
    by (auto simp: relay_chunk_def split: sum.splits)
  from take_content_cases[OF t] have d: "db st1 = db st" by auto
  have "db (persist_reply cid st1) =
      snd (add_commit_refresh (db st1) ''assistant'' (full_response_content st1) cid)"
    by (simp add: persist_reply_def split: prod.splits)
  then have "fresh_rows (db st1) (db (persist_reply cid st1))"
    by (simp add: fresh_rows_add)
  with s d show ?thesis by (simp add: fresh_rows_refl)
qed

lemma fresh_rows_lines: "fresh_rows (db st) (db (relay_lines cid ls st))"
proof (induction cid ls st rule: relay_lines.induct)
  case (4 cid chunk rest st)
  show ?case
  proof (cases "relay_chunk cid chunk st")
    case (Inl e)
    then show ?thesis by (simp add: fresh_rows_refl)
  next
    case (Inr st')
    with 4[OF Inr] fresh_rows_chunk[OF Inr] show ?thesis
      by (auto intro: fresh_rows_trans)
  qed
qed (simp_all add: fresh_rows_refl)

lemma fresh_rows_stream: "fresh_rows s (db (stream_ollama_response ollama request cid s))"
  using fresh_rows_lines[of "\<lparr>full_response_content = [], yielded = [], db = s, raised = None\<rparr>"]
  by (simp add: stream_ollama_response_def Let_def fresh_rows_refl fresh_rows_def
      split: option.splits)

lemma regenerate_not_found:
  assumes "session_get s (message_id request) = None \<or>
           (\<exists>m. session_get s (message_id request) = Some m \<and> role m \<noteq> ''user'')"
  shows "regenerate_from_prompt ollama request s =
           (Inl (HTTPException 404 ''Original user message not found''), s)"
  using assms by (auto simp: regenerate_from_prompt_def)

lemma regenerate_isl:
  "isl (fst (regenerate_from_prompt ollama request s)) \<longleftrightarrow>
     (session_get s (message_id request) = None \<or>
      (\<exists>m. session_get s (message_id request) = Some m \<and> role m \<noteq> ''user''))"
  by (auto simp: regenerate_from_prompt_def Let_def split: option.splits prod.splits)

lemma consumed_key_absent:
  assumes keys: "distinct (map msg_id (chatmessage s))"
    and never: "message_id request \<notin> fst ` sset (stamps s)"
    and ok: "\<not> isl (fst (regenerate_from_prompt ollama request s))"
  shows "session_get (snd (regenerate_from_prompt ollama request s)) (message_id request) = None"
proof -
  from ok obtain original where found: "session_get s (message_id request) = Some original"
    and user: "role original = ''user''"
    by (auto simp: regenerate_isl)
  let ?s2 = "snd (rewind s original (new_prompt request))"
  let ?s3 = "snd (regenerate_from_prompt ollama request s)"
  from session_get_Some[OF found] have o: "original \<in> set (chatmessage s)"
    "msg_id original = message_id request" by simp_all
  have inj: "inj_on msg_id (set (chatmessage s))" using keys by (simp add: distinct_map)
  have kept: "\<forall>m\<in>set (chatmessage (delete_from s (conversation_id original) (created_at original))).
      msg_id m \<noteq> message_id request"
  proof
    fix m assume m: "m \<in> set (chatmessage (delete_from s (conversation_id original) (created_at original)))"
    then have "m \<in> set (chatmessage s)" "m \<noteq> original"
      by (auto simp: delete_from_rows(1)[OF keys])
    with inj o show "msg_id m \<noteq> message_id request" by (auto simp: inj_on_def)
  qed
  have "msg_id (fst (rewind s original (new_prompt request))) = fst (shd (stamps s))"
    by (simp add: rewind_fields(1)[OF keys])
  with never have "msg_id (fst (rewind s original (new_prompt request))) \<noteq> message_id request"
    by (metis imageI shd_sset)
  with kept have s2: "\<forall>m\<in>set (chatmessage ?s2). msg_id m \<noteq> message_id request"
    by (auto simp: rewind_fields(2)[OF keys])
  have "sset (stamps ?s2) \<subseteq> sset (stamps s)"
    by (auto simp: rewind_fields(3)[OF keys] dest: stl_sset)
  with never have n2: "message_id request \<notin> fst ` sset (stamps ?s2)" by auto
  have "?s3 = db (stream_ollama_response ollama
              \<lparr>prompt = new_prompt request, chat_conversation_id = conversation_id original,
               chat_model = model request\<rparr>
              (conversation_id original) ?s2)"
    by (simp add: regenerate_success[OF found user])
  then have "fresh_rows ?s2 ?s3" by (simp add: fresh_rows_stream)
  with s2 n2 have "\<forall>m\<in>set (chatmessage ?s3). msg_id m \<noteq> message_id request"
    unfolding fresh_rows_def by metis
  then show ?thesis by (auto simp: session_get_None)
qed

lemma counting_stamps_funpow:
  "((\<lambda>p. (fst p + 1, snd p + 1)) ^^ n) (a, b) = (a + int n, b + int n)"
  by (induction n) simp_all

lemma counting_stamps_keys:
  fixes a b :: int
  assumes "i \<in> fst ` sset (siterate (\<lambda>p. (fst p + 1, snd p + 1)) (a, b))"
  shows "a \<le> i"
proof -
  from assms obtain n where "i = fst (((\<lambda>p. (fst p + 1, snd p + 1)) ^^ n) (a, b))"
    unfolding sset_siterate by auto
  then show ?thesis by (simp only: counting_stamps_funpow) simp
qed




text \<open>
  C8. As stated the claim fails for an id consumed by a completed regeneration: the key
  of the replacement message is chosen by the database, which may hand out the key of a
  deleted row again. In \<open>one_turn\<close> the regeneration of message 1 empties the table, the
  replacement user message gets key 1, and a second regeneration with id 1 is accepted:
  it deletes and inserts again.
\<close>

theorem consumed_key_reused:
  "\<not> isl (fst (regenerate_from_prompt well_behaved edit_first one_turn)) \<and>
   raised (projr (fst (regenerate_from_prompt well_behaved edit_first one_turn))) = None \<and>
   chatmessage (snd (regenerate_from_prompt well_behaved edit_first one_turn)) =
     [\<lparr>msg_id = 1, role = ''user'', content = ''hey'', created_at = 3,
       conversation_id = Some 1\<rparr>,
      \<lparr>msg_id = 2, role = ''assistant'', content = ''Hello'', created_at = 4,
       conversation_id = Some 1\<rparr>] \<and>
   \<not> isl (fst (regenerate_from_prompt well_behaved edit_first
             (snd (regenerate_from_prompt well_behaved edit_first one_turn)))) \<and>
   chatmessage (snd (regenerate_from_prompt well_behaved edit_first
             (snd (regenerate_from_prompt well_behaved edit_first one_turn)))) =
     [\<lparr>msg_id = 1, role = ''user'', content = ''hey'', created_at = 5,
       conversation_id = Some 1\<rparr>,
      \<lparr>msg_id = 2, role = ''assistant'', content = ''Hello'', created_at = 6,
       conversation_id = Some 1\<rparr>]"
  by (simp add: regen_eval well_behaved_def one_turn_def edit_first_def)

text \<open>
  C8, amended. A request whose id references no message, or a message whose role is not
  \<open>user\<close>, fails with the 404 and leaves the database unchanged. After a regeneration
  that was accepted, in a table with distinct keys, a request with the same id fails so
  whenever the database never hands that key out again.
\<close>

theorem regenerate_rejects:
  "(session_get s (message_id request) = None \<or>
      (\<exists>m. session_get s (message_id request) = Some m \<and> role m \<noteq> ''user'')
    \<longrightarrow> regenerate_from_prompt ollama request s =
          (Inl (HTTPException 404 ''Original user message not found''), s)) \<and>
   (distinct (map msg_id (chatmessage s)) \<and>
    message_id request \<notin> fst ` sset (stamps s) \<and>
    \<not> isl (fst (regenerate_from_prompt ollama request s)) \<and>
    message_id again = message_id request
    \<longrightarrow> regenerate_from_prompt ollama' again (snd (regenerate_from_prompt ollama request s)) =
          (Inl (HTTPException 404 ''Original user message not found''),
           snd (regenerate_from_prompt ollama request s)))"
proof (intro conjI impI)
  assume "session_get s (message_id request) = None \<or>
      (\<exists>m. session_get s (message_id request) = Some m \<and> role m \<noteq> ''user'')"
  then show "regenerate_from_prompt ollama request s =
          (Inl (HTTPException 404 ''Original user message not found''), s)"
    by (rule regenerate_not_found)
next
  assume a: "distinct (map msg_id (chatmessage s)) \<and>
    message_id request \<notin> fst ` sset (stamps s) \<and>
    \<not> isl (fst (regenerate_from_prompt ollama request s)) \<and>
    message_id again = message_id request"
  then have "session_get (snd (regenerate_from_prompt ollama request s)) (message_id again) = None"
    using consumed_key_absent[of s request ollama] by simp
  then show "regenerate_from_prompt ollama' again (snd (regenerate_from_prompt ollama request s)) =
          (Inl (HTTPException 404 ''Original user message not found''),
           snd (regenerate_from_prompt ollama request s))"
    by (simp add: regenerate_not_found)
qed

theorem regenerate_rejects_witness:
  "session_get two_turns (message_id edit_missing) = None \<and>
   regenerate_from_prompt well_behaved edit_missing two_turns =
     (Inl (HTTPException 404 ''Original user message not found''), two_turns) \<and>
   (\<exists>m. session_get two_turns (message_id edit_reply) = Some m \<and> role m \<noteq> ''user'') \<and>
   regenerate_from_prompt well_behaved edit_reply two_turns =
     (Inl (HTTPException 404 ''Original user message not found''), two_turns) \<and>
   distinct (map msg_id (chatmessage two_turns)) \<and>
   message_id edit_third \<notin> fst ` sset (stamps two_turns) \<and>
   \<not> isl (fst (regenerate_from_prompt well_behaved edit_third two_turns)) \<and>
   regenerate_from_prompt server_error edit_third
       (snd (regenerate_from_prompt well_behaved edit_third two_turns)) =
     (Inl (HTTPException 404 ''Original user message not found''),
      snd (regenerate_from_prompt well_behaved edit_third two_turns))"
proof -
  have a1: "session_get two_turns (message_id edit_missing) = None"
    by (simp add: session_get_def two_turns_def edit_missing_def)
  have a2: "\<exists>m. session_get two_turns (message_id edit_reply) = Some m \<and> role m \<noteq> ''user''"
    by (simp add: session_get_def two_turns_def edit_reply_def)
  have b1: "distinct (map msg_id (chatmessage two_turns))" by (simp add: two_turns_def)
  have b2: "message_id edit_third \<notin> fst ` sset (stamps two_turns)"
    using counting_stamps_keys[of 3 6 6] by (auto simp: two_turns_def edit_third_def)
  have b3: "\<not> isl (fst (regenerate_from_prompt well_behaved edit_third two_turns))"
    by (simp add: regenerate_from_prompt_def session_get_def two_turns_def edit_third_def
        Let_def split: prod.splits)
  from regenerate_rejects[where s = two_turns and request = edit_missing
      and ollama = well_behaved and again = edit_missing and ollama' = well_behaved] a1
  have c1: "regenerate_from_prompt well_behaved edit_missing two_turns =
     (Inl (HTTPException 404 ''Original user message not found''), two_turns)" by blast
  from regenerate_rejects[where s = two_turns and request = edit_reply
      and ollama = well_behaved and again = edit_reply and ollama' = well_behaved] a2
  have c2: "regenerate_from_prompt well_behaved edit_reply two_turns =
     (Inl (HTTPException 404 ''Original user message not found''), two_turns)" by blast
  from regenerate_rejects[where s = two_turns and request = edit_third
      and ollama = well_behaved and again = edit_third and ollama' = server_error] b1 b2 b3
  have c3: "regenerate_from_prompt server_error edit_third
       (snd (regenerate_from_prompt well_behaved edit_third two_turns)) =
     (Inl (HTTPException 404 ''Original user message not found''),
      snd (regenerate_from_prompt well_behaved edit_third two_turns))" by blast
  from a1 a2 b1 b2 b3 c1 c2 c3 show ?thesis by blast
qed

text \<open>
  C10. A regeneration on an existing user message, in a table with distinct keys. The
  request sent upstream carries the context assembled from the database after the
  deletion and the insert. When its response has a status other than 200, the database
  left is the rewound one: the rows not deleted followed by the new user message, and
  no assistant message. The stream is the new user message followed by the one error
  event carrying the body (the new user message alone, and an exception, when the body
  does not decode). When the timestamps are all earlier than the next clock reading, the
  conversation's sequence is the prefix below \<open>t0\<close> followed by the new user message.
\<close>

theorem rewind_survives_upstream_failure:
  fixes ollama request s original
  defines "cid \<equiv> conversation_id original"
  defines "t0 \<equiv> created_at original"
  defines "new_user_message \<equiv> fst (rewind s original (new_prompt request))"
  defines "rewound \<equiv> snd (rewind s original (new_prompt request))"
  defines "resp \<equiv> ollama (model request, assemble_context rewound cid)"
  assumes found: "session_get s (message_id request) = Some original"
    and user: "role original = ''user''"
    and keys: "distinct (map msg_id (chatmessage s))"
    and fail: "status_code resp \<noteq> 200"
  shows
   "snd (regenerate_from_prompt ollama request s) = rewound \<and>
    (\<forall>body. error_content resp = Some body \<longrightarrow>
       regenerate_from_prompt ollama request s =
         (Inr \<lparr>full_response_content = [],
               yielded = [UserMessage new_user_message cid,
                          ErrorEvent (''Ollama API Error: '' @ body)],
               db = rewound, raised = None\<rparr>,
          rewound)) \<and>
    (error_content resp = None \<longrightarrow>
       regenerate_from_prompt ollama request s =
         (Inr \<lparr>full_response_content = [],
               yielded = [UserMessage new_user_message cid],
               db = rewound, raised = Some UnicodeDecodeError\<rparr>,
          rewound)) \<and>
    chatmessage rewound =
      filter (\<lambda>m. \<not> (conversation_id m = cid \<and> t0 \<le> created_at m)) (chatmessage s)
        @ [new_user_message] \<and>
    role new_user_message = ''user'' \<and> content new_user_message = new_prompt request \<and>
    conversation_id new_user_message = cid \<and>
    ((\<forall>m\<in>set (chatmessage s). created_at m < snd (shd (stamps s))) \<longrightarrow>
       get_conversation_messages rewound cid =
         takeWhile (\<lambda>m. created_at m < t0) (get_conversation_messages s cid)
           @ [new_user_message])"
proof -
  from session_get_Some[OF found] have o: "original \<in> set (chatmessage s)" by simp
  let ?req = "\<lparr>prompt = new_prompt request, chat_conversation_id = cid,
               chat_model = model request\<rparr>"
  have f: "status_code (ollama (chat_model ?req, assemble_context rewound cid)) \<noteq> 200"
    using fail by (simp add: resp_def)
  have reg: "regenerate_from_prompt ollama request s =
      (Inr ((stream_ollama_response ollama ?req cid rewound)
              \<lparr>yielded := UserMessage new_user_message cid
                 # yielded (stream_ollama_response ollama ?req cid rewound)\<rparr>),
       db (stream_ollama_response ollama ?req cid rewound))"
    using regenerate_success[OF found user, of ollama]
    by (simp add: cid_def rewound_def new_user_message_def)
  have left: "snd (regenerate_from_prompt ollama request s) = rewound"
    using reg stream_failure_quiet[where ollama = ollama and request = ?req and s = rewound
      and cid = cid, OF f]
    by simp
  have decoded: "\<forall>body. error_content resp = Some body \<longrightarrow>
       regenerate_from_prompt ollama request s =
         (Inr \<lparr>full_response_content = [],
               yielded = [UserMessage new_user_message cid,
                          ErrorEvent (''Ollama API Error: '' @ body)],
               db = rewound, raised = None\<rparr>,
          rewound)"
  proof (intro allI impI)
    fix body assume "error_content resp = Some body"
    then have "error_content (ollama (chat_model ?req, assemble_context rewound cid)) = Some body"
      by (simp add: resp_def)
    from stream_error_branch[where ollama = ollama and request = ?req and s = rewound
      and cid = cid, OF f this] reg
    show "regenerate_from_prompt ollama request s =
         (Inr \<lparr>full_response_content = [],
               yielded = [UserMessage new_user_message cid,
                          ErrorEvent (''Ollama API Error: '' @ body)],
               db = rewound, raised = None\<rparr>,
          rewound)"
      by simp
  qed
  have garbled: "error_content resp = None \<longrightarrow>
       regenerate_from_prompt ollama request s =
         (Inr \<lparr>full_response_content = [],
               yielded = [UserMessage new_user_message cid],
               db = rewound, raised = Some UnicodeDecodeError\<rparr>,
          rewound)"
  proof
    assume "error_content resp = None"
    then have "error_content (ollama (chat_model ?req, assemble_context rewound cid)) = None"
      by (simp add: resp_def)
    from stream_decode_branch[where ollama = ollama and request = ?req and s = rewound
      and cid = cid, OF f this] reg
    show "regenerate_from_prompt ollama request s =
         (Inr \<lparr>full_response_content = [],
               yielded = [UserMessage new_user_message cid],
               db = rewound, raised = Some UnicodeDecodeError\<rparr>,
          rewound)"
      by simp
  qed
  have rows: "chatmessage rewound =
      filter (\<lambda>m. \<not> (conversation_id m = cid \<and> t0 \<le> created_at m)) (chatmessage s)
        @ [new_user_message]"
    by (simp add: rewound_def new_user_message_def cid_def t0_def rewind_fields(2)[OF keys]
        delete_from_rows(1)[OF keys])
  have new: "role new_user_message = ''user''" "content new_user_message = new_prompt request"
    "conversation_id new_user_message = cid"
    by (simp_all add: new_user_message_def cid_def rewind_fields(1)[OF keys])
  have seq: "(\<forall>m\<in>set (chatmessage s). created_at m < snd (shd (stamps s))) \<longrightarrow>
       get_conversation_messages rewound cid =
         takeWhile (\<lambda>m. created_at m < t0) (get_conversation_messages s cid)
           @ [new_user_message]"
  proof
    assume "\<forall>m\<in>set (chatmessage s). created_at m < snd (shd (stamps s))"
    with o have "created_at original \<le> snd (shd (stamps s))" by fastforce
    from conversation_after_rewind[OF keys this, of "new_prompt request"]
    show "get_conversation_messages rewound cid =
         takeWhile (\<lambda>m. created_at m < t0) (get_conversation_messages s cid)
           @ [new_user_message]"
      by (simp add: rewound_def new_user_message_def cid_def t0_def)
  qed
  from left decoded garbled rows new seq show ?thesis by blast
qed

theorem rewind_survives_upstream_failure_witness:
  "session_get two_turns (message_id edit_third) = Some third_message \<and>
   role third_message = ''user'' \<and>
   distinct (map msg_id (chatmessage two_turns)) \<and>
   status_code (server_error (model edit_third,
      assemble_context (snd (rewind two_turns third_message (new_prompt edit_third)))
        (conversation_id third_message))) \<noteq> 200 \<and>
   error_content (server_error (model edit_third,
      assemble_context (snd (rewind two_turns third_message (new_prompt edit_third)))
        (conversation_id third_message))) = Some ''boom'' \<and>
   list_all (\<lambda>m. created_at m < snd (shd (stamps two_turns))) (chatmessage two_turns) \<and>
   yielded (projr (fst (regenerate_from_prompt server_error edit_third two_turns))) =
     [UserMessage \<lparr>msg_id = 6, role = ''user'', content = ''again'', created_at = 6,
                   conversation_id = Some 1\<rparr> (Some 1),
      ErrorEvent ''Ollama API Error: boom''] \<and>
   get_conversation_messages (snd (regenerate_from_prompt server_error edit_third two_turns))
       (Some 1) =
     [\<lparr>msg_id = 1, role = ''user'', content = ''hi'', created_at = 1,
       conversation_id = Some 1\<rparr>,
      \<lparr>msg_id = 2, role = ''assistant'', content = ''yo'', created_at = 2,
       conversation_id = Some 1\<rparr>,
      \<lparr>msg_id = 6, role = ''user'', content = ''again'', created_at = 6,
       conversation_id = Some 1\<rparr>]"
proof -
  have h1: "session_get two_turns (message_id edit_third) = Some third_message"
    by (simp add: session_get_def two_turns_def edit_third_def third_message_def)
  have h2: "role third_message = ''user''" by (simp add: third_message_def)
  have h3: "distinct (map msg_id (chatmessage two_turns))" by (simp add: two_turns_def)
  have h4: "status_code (server_error (model edit_third,
      assemble_context (snd (rewind two_turns third_message (new_prompt edit_third)))
        (conversation_id third_message))) \<noteq> 200"
    by (simp add: server_error_def)
  have h5: "\<forall>m\<in>set (chatmessage two_turns). created_at m < snd (shd (stamps two_turns))"
    by (simp add: two_turns_def)
  have h6: "error_content (server_error (model edit_third,
      assemble_context (snd (rewind two_turns third_message (new_prompt edit_third)))
        (conversation_id third_message))) = Some ''boom''"
    by (simp add: server_error_def)
  have seq: "takeWhile (\<lambda>m. created_at m < created_at third_message)
       (get_conversation_messages two_turns (conversation_id third_message)) =
     [\<lparr>msg_id = 1, role = ''user'', content = ''hi'', created_at = 1,
       conversation_id = Some 1\<rparr>,
      \<lparr>msg_id = 2, role = ''assistant'', content = ''yo'', created_at = 2,
       conversation_id = Some 1\<rparr>]"
    by (simp add: get_conversation_messages_def two_turns_def third_message_def)
  have new: "fst (rewind two_turns third_message (new_prompt edit_third)) =
      \<lparr>msg_id = 6, role = ''user'', content = ''again'', created_at = 6,
       conversation_id = Some 1\<rparr>"
    by (simp add: rewind_def add_commit_refresh_def Let_def two_turns_def third_message_def
        delete_from_def messages_to_delete_def session_delete_def edit_third_def)
  have c: "conversation_id third_message = Some 1" by (simp add: third_message_def)
  note t = rewind_survives_upstream_failure[where s = two_turns and request = edit_third
      and original = third_message and ollama = server_error, OF h1 h2 h3 h4]
  from t h5 h6 have "regenerate_from_prompt server_error edit_third two_turns =
      (Inr \<lparr>full_response_content = [],
            yielded = [UserMessage (fst (rewind two_turns third_message (new_prompt edit_third)))
                         (conversation_id third_message),
                       ErrorEvent (''Ollama API Error: '' @ ''boom'')],
            db = snd (rewind two_turns third_message (new_prompt edit_third)), raised = None\<rparr>,
       snd (rewind two_turns third_message (new_prompt edit_third)))"
    and "get_conversation_messages (snd (rewind two_turns third_message (new_prompt edit_third)))
           (conversation_id third_message) =
         takeWhile (\<lambda>m. created_at m < created_at third_message)
           (get_conversation_messages two_turns (conversation_id third_message))
           @ [fst (rewind two_turns third_message (new_prompt edit_third))]"
    by blast+
  with seq new c h1 h2 h3 h4 h5 h6 show ?thesis by (simp add: list_all_iff)
qed

end
